theory Spec2Isabelle
  imports Complex_Main "HOL-Library.Word"
begin

section \<open>The MLT integrator of src/integrators/mlt/mlt.cpp\<close>

text \<open>
  A shallow embedding of the class \<open>MLT\<close>: its constructor, \<open>preprocess\<close>, \<open>cancel\<close>
  and \<open>render\<close>. The collaborators that \<open>mlt.cpp\<close> only calls (scheduler, path
  sampler, the helpers of \<open>BidirectionalUtils\<close>, the logger) are not part of the file.
  Every call to one of them is recorded as an \<open>event\<close>, in program order, and what the
  call returns is read from a record of the environment (\<open>world\<close>).

  Machine types are those of an LP64 platform: \<open>int\<close> is a 32-bit two's complement
  word, \<open>size_t\<close> a 64-bit unsigned word.
\<close>

unbundle bit_operations_syntax

subsection \<open>Values\<close>

type_synonym cint = "32 word"
type_synonym size_t = "64 word"

text \<open>An image (a reference-counted Bitmap), identified by a handle; a null reference is \<open>None\<close>.\<close>
datatype bitmap = Bitmap nat

text \<open>A nested render job (a reference-counted RenderJob) and a parallel process, by handle.\<close>
datatype renderJob = RenderJob nat
datatype process = Process nat

datatype logLevel = EDebug | EInfo | EWarn | EError

text \<open>
  What ends a call without a result. \<open>Log(EError, ...)\<close> throws: the message is kept.
  \<open>Assert\<close> logs at \<open>EError\<close> when its condition fails. Signed overflow, integer
  division by zero and the conversion to an integer type of a floating-point number
  outside its range have no defined result in C++.
\<close>
datatype fault =
    FatalError string
  | AssertionFailed string
  | SignedOverflow
  | DivisionByZero
  | FloatToIntOutOfRange

subsection \<open>The scene as preprocess reads it\<close>

record scene =
  subsurfaceIntegrators :: "nat list"
  samplerClassName :: string

subsection \<open>preprocess (mlt.cpp:120-133)\<close>

text \<open>
  \<open>Integrator::preprocess\<close> of the base class is called first and its result dropped.
  Then the two checks, in the order of the source; the first \<open>Log(EError, ...)\<close> that
  fires leaves the function.
\<close>
definition preprocess :: "scene \<Rightarrow> fault + bool" where
  "preprocess sc =
     (if length (subsurfaceIntegrators sc) > 0
        then Inl (FatalError ''Subsurface integrators are not supported by MLT!'')
      else if samplerClassName sc \<noteq> ''IndependentSampler''
        then Inl (FatalError ''Metropolis light transport requires the independent sampler'')
      else Inr True)"

subsection \<open>Properties\<close>

text \<open>
  Modelled from the spec: \<open>Properties\<close> (mitsuba/core/properties.h, not part of the
  sources) is the parsed parameter set, external to the core (spec, section 1). A getter
  returns the value stored under the name, or the default handed to it.
\<close>
record properties =
  integers :: "string \<rightharpoonup> cint"
  booleans :: "string \<rightharpoonup> bool"
  floats :: "string \<rightharpoonup> real"

definition getInteger :: "properties \<Rightarrow> string \<Rightarrow> cint \<Rightarrow> cint" where
  "getInteger props name dflt = (case integers props name of Some v \<Rightarrow> v | None \<Rightarrow> dflt)"

definition getBoolean :: "properties \<Rightarrow> string \<Rightarrow> bool \<Rightarrow> bool" where
  "getBoolean props name dflt = (case booleans props name of Some v \<Rightarrow> v | None \<Rightarrow> dflt)"

definition getFloat :: "properties \<Rightarrow> string \<Rightarrow> real \<Rightarrow> real" where
  "getFloat props name dflt = (case floats props name of Some v \<Rightarrow> v | None \<Rightarrow> dflt)"

subsection \<open>MLTConfiguration and the members of MLT\<close>

text \<open>
  The struct is declared in mlt.h, which is not part of the sources. Each field has the
  type of the expression that mlt.cpp stores in it: \<open>getInteger\<close> returns an \<open>int\<close>,
  the quotient stored in \<open>nMutations\<close> is a \<open>size_t\<close>. \<open>luminance\<close> and
  \<open>probFactor\<close> are floating-point numbers that mlt.cpp only copies; they are kept as
  opaque reals.
\<close>
record MLTConfiguration =
  maxDepth :: cint
  twoStage :: bool
  firstStageSizeReduction :: cint
  firstStage :: bool
  luminanceSamples :: cint
  directSamples :: cint
  separateDirect :: bool
  workUnits :: cint
  bidirectionalMutation :: bool
  lensPerturbation :: bool
  causticPerturbation :: bool
  multiChainPerturbation :: bool
  manifoldPerturbation :: bool
  probFactor :: real
  timeout :: cint
  nMutations :: size_t
  luminance :: real
  importanceMap :: "bitmap option"

record mlt =
  m_process :: "process option"
  m_nestedJob :: "renderJob option"
  m_config :: MLTConfiguration

subsection \<open>The constructor MLT(const Properties &) (mlt.cpp:36-105)\<close>

text \<open>
  The constructor assigns the fields below from the properties, in this order. It does
  not assign \<open>nMutations\<close> and \<open>luminance\<close>: their content is whatever the memory held,
  given here as the argument \<open>junk\<close>. The three references start out null.
\<close>
definition MLT :: "properties \<Rightarrow> size_t \<times> real \<Rightarrow> mlt" where
  "MLT props junk =
     (let ds = getInteger props ''directSamples'' 16 in
      \<lparr> m_process = None,
        m_nestedJob = None,
        m_config = \<lparr>
          maxDepth = getInteger props ''maxDepth'' (- 1),
          twoStage = getBoolean props ''twoStage'' False,
          firstStageSizeReduction = getInteger props ''firstStageSizeReduction'' 16,
          firstStage = getBoolean props ''firstStage'' False,
          luminanceSamples = getInteger props ''luminanceSamples'' 100000,
          directSamples = ds,
          separateDirect = (0 \<le>s ds),
          workUnits = getInteger props ''workUnits'' (- 1),
          bidirectionalMutation = getBoolean props ''bidirectionalMutation'' True,
          lensPerturbation = getBoolean props ''lensPerturbation'' False,
          causticPerturbation = getBoolean props ''causticPerturbation'' False,
          multiChainPerturbation = getBoolean props ''multiChainPerturbation'' False,
          manifoldPerturbation = getBoolean props ''manifoldPerturbation'' False,
          probFactor = getFloat props ''probFactor'' 50,
          timeout = getInteger props ''timeout'' 0,
          nMutations = fst junk,
          luminance = snd junk,
          importanceMap = None \<rparr> \<rparr>)"

subsection \<open>cancel (mlt.cpp:135-140)\<close>

datatype cancelEvent =
    JobCancel renderJob
  | SchedulerCancel "process option"

text \<open>The calls \<open>cancel\<close> makes, in order. It has no other effect and no error branch.\<close>
definition cancel :: "mlt \<Rightarrow> cancelEvent list" where
  "cancel this =
     (case m_nestedJob this of
        Some nested \<Rightarrow> [JobCancel nested]
      | None \<Rightarrow> [])
     @ [SchedulerCancel (m_process this)]"

subsection \<open>Integer conversions and single-precision arithmetic\<close>

text \<open>
  \<open>cropSize.x * cropSize.y\<close> is a product of two \<open>int\<close>s: it has a value only when
  the mathematical product fits in 32 bits. Multiplying it by the \<open>size_t\<close> sample
  count converts it to \<open>size_t\<close> (sign extension) and wraps modulo \<open>2^64\<close>.
\<close>
definition totalSamples :: "cint \<Rightarrow> cint \<Rightarrow> size_t \<Rightarrow> fault + size_t" where
  "totalSamples x y sampleCount =
     (if sint x * sint y < - (2 ^ 31) \<or> 2 ^ 31 \<le> sint x * sint y then Inl SignedOverflow
      else Inr ((scast (x * y) :: size_t) * sampleCount))"

text \<open>The number of binary digits of a natural number.\<close>
fun bitLength :: "nat \<Rightarrow> nat" where
  "bitLength n = (if n = 0 then 0 else Suc (bitLength (n div 2)))"

declare bitLength.simps [simp del]

text \<open>
  A finite non-negative binary32 number is written \<open>F32 m e\<close>, with the value
  \<open>m * 2^e\<close>. The numbers of binary32 in the normal range are those with a
  representation whose \<open>m\<close> is below \<open>2^24\<close>.
\<close>
datatype f32 = F32 (mantissa: nat) (exponent: int)

definition f32_value :: "f32 \<Rightarrow> real" where
  "f32_value x = real (mantissa x) * 2 powi exponent x"

text \<open>
  \<open>ilog2 a b\<close> is the integer part of the binary logarithm of \<open>a / b\<close>, for positive
  \<open>a\<close> and \<open>b\<close>: the difference of the bit lengths, less one when \<open>a / b\<close> is below
  that power of two.
\<close>
definition ilog2 :: "nat \<Rightarrow> nat \<Rightarrow> int" where
  "ilog2 a b =
     (let k = int (bitLength a) - int (bitLength b) in
      if (if 0 \<le> k then b * 2 ^ nat k \<le> a else b \<le> a * 2 ^ nat (- k)) then k else k - 1)"

text \<open>
  The binary32 number nearest to the fraction \<open>a / b\<close>, ties to the even mantissa
  (the rounding of IEEE 754 that C++ implementations use by default). The exponent is
  chosen so that the mantissa has 24 bits; the remainder of the division decides the
  rounding. Zero is exact. The quotients formed in \<open>render\<close> lie between \<open>1 / 200000\<close>
  and \<open>2^64\<close>, inside the normal range, so that subnormal numbers and infinity do not
  occur.
\<close>
definition f32_round :: "nat \<Rightarrow> nat \<Rightarrow> f32" where
  "f32_round a b =
     (if a = 0 then F32 0 0
      else
        let e = ilog2 a b - 23;
            num = a * 2 ^ nat (- e);
            den = b * 2 ^ nat e;
            q = num div den;
            r = num mod den
        in F32 (if den < 2 * r \<or> (2 * r = den \<and> odd q) then q + 1 else q) e)"

text \<open>The conversion of a \<open>size_t\<close> to \<open>float\<close>.\<close>
definition f32_of_size :: "size_t \<Rightarrow> f32" where
  "f32_of_size n = (if unat n < 2 ^ 24 then F32 (unat n) 0 else f32_round (unat n) 1)"

text \<open>The literal \<open>200000.0f\<close>.\<close>
definition f32_200000 :: f32 where
  "f32_200000 = F32 200000 0"

text \<open>Division of two binary32 numbers, the divisor not zero: the exact quotient, rounded.\<close>
definition f32_div :: "f32 \<Rightarrow> f32 \<Rightarrow> f32" where
  "f32_div x y =
     f32_round (mantissa x * 2 ^ nat (exponent x - exponent y))
               (mantissa y * 2 ^ nat (exponent y - exponent x))"

text \<open>\<open>std::ceil\<close>: the result is an integer, given here as a natural number.\<close>
definition f32_ceil :: "f32 \<Rightarrow> nat" where
  "f32_ceil x =
     (if 0 \<le> exponent x then mantissa x * 2 ^ nat (exponent x)
      else (mantissa x + 2 ^ nat (- exponent x) - 1) div 2 ^ nat (- exponent x))"

text \<open>
  The cast \<open>(size_t)\<close> of an integer-valued \<open>float\<close> has a value only when the integer
  is below \<open>2^64\<close>. Storing the \<open>size_t\<close> in the \<open>int\<close> field keeps its low 32 bits.
\<close>
definition size_of_f32 :: "nat \<Rightarrow> fault + size_t" where
  "size_of_f32 c = (if c < 2 ^ 64 then Inr (word_of_nat c) else Inl FloatToIntOutOfRange)"

subsection \<open>render (mlt.cpp:142-224)\<close>

text \<open>A path seed, by the index of its sample.\<close>
datatype pathSeed = PathSeed nat

datatype status = ESuccess | EFailure | EUnknown

text \<open>
  What the collaborators return during one call of \<open>render\<close>:
  \<^item> \<open>coreCount\<close>: \<open>scheduler->getCoreCount()\<close>;
  \<^item> \<open>samplerSampleCount\<close>: \<open>sampler->getSampleCount()\<close>;
  \<^item> \<open>cropSizeX\<close>, \<open>cropSizeY\<close>: \<open>film->getCropSize()\<close>, a \<open>Vector2i\<close>;
  \<^item> \<open>mltLuminancePass\<close>: for the size factor handed to it, the bitmap reference
    that \<open>BidirectionalUtils::mltLuminancePass\<close> returns and the value it leaves in
    \<open>m_nestedJob\<close>, which it receives by reference;
  \<^item> \<open>renderDirectComponent\<close>: for the sample count handed to it, the bitmap
    reference that \<open>BidirectionalUtils::renderDirectComponent\<close> returns;
  \<^item> \<open>generateSeeds\<close>: for the arguments \<open>sampleCount\<close>, \<open>seedCount\<close> and the flag
    of \<open>PathSampler::generateSeeds\<close>, the number it returns and the seeds it puts into
    the vector;
  \<^item> \<open>newProcess\<close>: the \<open>MLTProcess\<close> object created;
  \<^item> \<open>returnStatus\<close>: \<open>process->getReturnStatus()\<close> after the wait.
\<close>
record world =
  coreCount :: size_t
  samplerSampleCount :: size_t
  cropSizeX :: cint
  cropSizeY :: cint
  mltLuminancePass :: "cint \<Rightarrow> bitmap option \<times> renderJob option"
  renderDirectComponent :: "cint \<Rightarrow> bitmap option"
  generateSeeds :: "cint \<Rightarrow> cint \<Rightarrow> bool \<Rightarrow> real \<times> pathSeed list"
  newProcess :: process
  returnStatus :: status

text \<open>
  The calls \<open>render\<close> makes, in program order. \<open>Schedule\<close> carries the value of
  \<open>m_config\<close>, the direct image and the seed vector at the moment of
  \<open>scheduler->schedule(process)\<close>: these are what the process was built over.
\<close>
datatype event =
    Log logLevel string
  | LuminancePass cint
  | RenderDirect cint
  | NewPathSampler cint bool
  | GenerateSeeds cint cint bool
  | ConfigDump
  | RegisterResource
  | BindResource string
  | Schedule process MLTConfiguration "bitmap option" "pathSeed list"
  | Wait process
  | Develop process
  | UnregisterResource

text \<open>How a block of statements ends: control goes on, or the function returns, or throws.\<close>
datatype control = Next | Return bool | Throw fault

text \<open>\<open>nested\<close> (mlt.cpp:166).\<close>
definition nested :: "MLTConfiguration \<Rightarrow> bool" where
  "nested c = (twoStage c \<and> firstStage c)"

text \<open>
  Lines 150-164: the importance map is reset, then the first stage runs when two-stage
  rendering is on and this is not the nested run. \<open>Assert\<close> logs at \<open>EError\<close>, which
  throws, when the size reduction is not positive.
\<close>
definition firstStageBlock :: "world \<Rightarrow> mlt \<Rightarrow> event list \<times> mlt \<times> control" where
  "firstStageBlock w this =
     (let this0 = this\<lparr>m_config := (m_config this)\<lparr>importanceMap := None\<rparr>\<rparr> in
      if twoStage (m_config this0) \<and> \<not> firstStage (m_config this0) then
        if \<not> (0 <s firstStageSizeReduction (m_config this0)) then
          ([Log EInfo ''Executing first MLT stage'',
            Log EError ''Assertion failed: m_config.firstStageSizeReduction > 0''],
           this0, Throw (AssertionFailed ''m_config.firstStageSizeReduction > 0''))
        else
          let res = mltLuminancePass w (firstStageSizeReduction (m_config this0));
              this1 = this0\<lparr>m_nestedJob := snd res,
                             m_config := (m_config this0)\<lparr>importanceMap := fst res\<rparr>\<rparr>
          in if importanceMap (m_config this1) = None then
               ([Log EInfo ''Executing first MLT stage'',
                 LuminancePass (firstStageSizeReduction (m_config this0)),
                 Log EWarn ''First-stage MLT process failed!''],
                this1, Return False)
             else
               ([Log EInfo ''Executing first MLT stage'',
                 LuminancePass (firstStageSizeReduction (m_config this0)),
                 Log EInfo ''First MLT stage took %i ms''],
                this1, Next)
      else ([], this0, Next))"

text \<open>
  Lines 174-176: the work-unit count that replaces a non-positive one.
\<close>
definition defaultWorkUnits :: "size_t \<Rightarrow> fault + cint" where
  "defaultWorkUnits samples =
     (case size_of_f32 (f32_ceil (f32_div (f32_of_size samples) f32_200000)) of
        Inl f \<Rightarrow> Inl f
      | Inr n \<Rightarrow> Inr (ucast n))"

text \<open>
  Lines 174-179. The division is one of \<open>size_t\<close>: the \<open>int\<close> divisor is converted
  (sign extension), and a zero divisor has no result.
\<close>
definition budgetBlock :: "world \<Rightarrow> MLTConfiguration \<Rightarrow> fault + MLTConfiguration" where
  "budgetBlock w c =
     (case totalSamples (cropSizeX w) (cropSizeY w) (samplerSampleCount w) of
        Inl f \<Rightarrow> Inl f
      | Inr samples \<Rightarrow>
          (case (if workUnits c \<le>s 0 then defaultWorkUnits samples else Inr (workUnits c)) of
             Inl f \<Rightarrow> Inl f
           | Inr wu \<Rightarrow>
               if (scast wu :: size_t) = 0 then Inl DivisionByZero
               else Inr (c\<lparr>workUnits := wu, nMutations := samples div scast wu\<rparr>)))"

text \<open>
  Lines 181-187: the direct image, and whether \<open>render\<close> goes on.
\<close>
definition directBlock :: "world \<Rightarrow> MLTConfiguration \<Rightarrow> event list \<times> bitmap option \<times> control" where
  "directBlock w c =
     (if separateDirect c \<and> 0 <s directSamples c \<and> \<not> nested c then
        let directImage = renderDirectComponent w (directSamples c) in
        if directImage = None then ([RenderDirect (directSamples c)], directImage, Return False)
        else ([RenderDirect (directSamples c)], directImage, Next)
      else ([], None, Next))"

text \<open>
  Lines 189-204: the path sampler and the process are created, then \<open>generateSeeds\<close>
  is called twice, the seed vector cleared in between. Each call stores what it returns
  in \<open>m_config.luminance\<close>. The block gives the events, the configuration and the seed
  vector.
\<close>
definition seedBlock ::
  "world \<Rightarrow> MLTConfiguration \<Rightarrow> event list \<times> MLTConfiguration \<times> pathSeed list" where
  "seedBlock w c =
     (let first = generateSeeds w (luminanceSamples c) (workUnits c) False;
          c1 = c\<lparr>luminance := fst first\<rparr>;
          pathSeeds1 = [] @ snd first;
          pathSeeds2 = [];
          second = generateSeeds w (luminanceSamples c1) (workUnits c1) True;
          c2 = c1\<lparr>luminance := fst second\<rparr>;
          pathSeeds3 = pathSeeds2 @ snd second
      in ([NewPathSampler (maxDepth c) (separateDirect c),
           GenerateSeeds (luminanceSamples c) (workUnits c) False,
           GenerateSeeds (luminanceSamples c1) (workUnits c1) True],
          c2, pathSeeds3))"

text \<open>
  Lines 206-223: the dump, the resources, the process scheduled and waited for, the
  film developed. \<open>m_process\<close> holds the process between \<open>schedule\<close> and the end of
  \<open>wait\<close>, and is null afterwards.
\<close>
definition processBlock ::
  "world \<Rightarrow> mlt \<Rightarrow> bitmap option \<Rightarrow> pathSeed list \<Rightarrow> event list \<times> mlt \<times> bool" where
  "processBlock w this directImage pathSeeds =
     (let process = newProcess w;
          this1 = this\<lparr>m_process := Some process\<rparr>;
          this2 = this1\<lparr>m_process := None\<rparr>
      in ((if \<not> nested (m_config this) then [ConfigDump] else []) @
          [RegisterResource,
           BindResource ''scene'', BindResource ''sensor'',
           BindResource ''sampler'', BindResource ''rplSampler'',
           Schedule process (m_config this1) directImage pathSeeds,
           Wait process,
           Develop process,
           UnregisterResource],
          this2, returnStatus w = ESuccess))"

text \<open>
  \<open>render\<close>: the blocks in sequence. The result is the list of calls made, the members
  of \<open>MLT\<close> when the call ends, and the value returned or the fault thrown.
\<close>
definition render :: "world \<Rightarrow> mlt \<Rightarrow> event list \<times> mlt \<times> (fault + bool)" where
  "render w this =
     (case firstStageBlock w this of
        (ev1, this1, Throw f) \<Rightarrow> (ev1, this1, Inl f)
      | (ev1, this1, Return b) \<Rightarrow> (ev1, this1, Inr b)
      | (ev1, this1, Next) \<Rightarrow>
          let ev2 = ev1 @ [Log EInfo (if nested (m_config this1)
                                      then ''Starting nested render job''
                                      else ''Starting render job'')] in
          (case budgetBlock w (m_config this1) of
             Inl f \<Rightarrow> (ev2, this1, Inl f)
           | Inr c2 \<Rightarrow>
               let this2 = this1\<lparr>m_config := c2\<rparr> in
               (case directBlock w c2 of
                  (ev3, directImage, Throw f) \<Rightarrow> (ev2 @ ev3, this2, Inl f)
                | (ev3, directImage, Return b) \<Rightarrow> (ev2 @ ev3, this2, Inr b)
                | (ev3, directImage, Next) \<Rightarrow>
                    (case seedBlock w c2 of
                       (ev4, c4, pathSeeds) \<Rightarrow>
                         (case processBlock w (this2\<lparr>m_config := c4\<rparr>) directImage pathSeeds of
                            (ev5, this5, b) \<Rightarrow> (ev2 @ ev3 @ ev4 @ ev5, this5, Inr b))))))"

subsection \<open>The helpers of BidirectionalUtils, from the spec\<close>

text \<open>
  Modelled from the spec: \<open>BidirectionalUtils::mltLuminancePass\<close> (mitsuba/bidir/util.h)
  is not part of the sources. By the spec (sections 4.3 and 8) the nested run it starts
  is an instance of the same pipeline with the "first stage" flag set, on a crop reduced
  by the size factor handed to it. How the reduced crop is rounded is left open by the
  spec and is not modelled.
\<close>
definition nestedIntegrator :: "MLTConfiguration \<Rightarrow> MLTConfiguration" where
  "nestedIntegrator c = c\<lparr>firstStage := True\<rparr>"

text \<open>
  Modelled from the spec: the sample count of the direct-illumination pass is fixed
  past \<open>BidirectionalUtils::renderDirectComponent\<close> (mitsuba/bidir/util.h), which is
  not part of the sources. By the spec (sections 4.1 and 6) a positive \<open>directSamples\<close>
  is rounded up to the next power of two. \<open>roundToPowerOfTwo n\<close> is the power of two
  with as many doublings as \<open>n - 1\<close> has binary digits.
\<close>
definition roundToPowerOfTwo :: "nat \<Rightarrow> nat" where
  "roundToPowerOfTwo n = 2 ^ bitLength (n - 1)"

definition directPassSampleCount :: "cint \<Rightarrow> nat" where
  "directPassSampleCount d = roundToPowerOfTwo (nat (sint d))"

subsection \<open>Example inputs\<close>

text \<open>
  An integrator built from an empty parameter set (every default applies), one with
  two-stage rendering switched on, and the parameter sets with \<open>directSamples = 17\<close>
  and with \<open>directSamples = -1\<close>.
\<close>
definition noProperties :: properties where
  "noProperties = \<lparr>integers = Map.empty, booleans = Map.empty, floats = Map.empty\<rparr>"

definition sampleMLT :: mlt where
  "sampleMLT = MLT noProperties (0, 0)"

definition twoStageMLT :: mlt where
  "twoStageMLT = MLT (noProperties\<lparr>booleans := [''twoStage'' \<mapsto> True]\<rparr>) (0, 0)"

definition seventeenProperties :: properties where
  "seventeenProperties = noProperties\<lparr>integers := [''directSamples'' \<mapsto> 17]\<rparr>"

definition minusOneProperties :: properties where
  "minusOneProperties = noProperties\<lparr>integers := [''directSamples'' \<mapsto> - 1]\<rparr>"

text \<open>
  A run on 8 cores with a 512 x 512 crop and 4 samples per pixel, in which every
  collaborator succeeds; the two calls of \<open>generateSeeds\<close> return different numbers.
\<close>
definition sampleWorld :: world where
  "sampleWorld =
     \<lparr> coreCount = 8, samplerSampleCount = 4, cropSizeX = 512, cropSizeY = 512,
       mltLuminancePass = (\<lambda>sizeFactor. (Some (Bitmap 1), None)),
       renderDirectComponent = (\<lambda>sampleCount. Some (Bitmap 2)),
       generateSeeds = (\<lambda>sampleCount seedCount fineGrained.
          if fineGrained then (2, [PathSeed 5]) else (1, [PathSeed 3])),
       newProcess = Process 9,
       returnStatus = ESuccess \<rparr>"

text \<open>The same run with a first stage that returns no image.\<close>
definition failedFirstStageWorld :: world where
  "failedFirstStageWorld = sampleWorld\<lparr>mltLuminancePass := (\<lambda>sizeFactor. (None, None))\<rparr>"

text \<open>A 3981 x 4421 crop at one sample per pixel: 17600001 samples.\<close>
definition oddTotalWorld :: world where
  "oddTotalWorld = sampleWorld\<lparr>cropSizeX := 3981, cropSizeY := 4421, samplerSampleCount := 1\<rparr>"


text \<open>A 1920 x 1080 crop at 16 samples per pixel: 33177600 samples.\<close>
definition hdWorld :: world where
  "hdWorld = sampleWorld\<lparr>cropSizeX := 1920, cropSizeY := 1080, samplerSampleCount := 16\<rparr>"

section \<open>Auxiliary facts\<close>

subsection \<open>Words, bit lengths and rounding\<close>

lemma sint_cint_range:
  fixes w :: cint
  shows "- (2 ^ 31) \<le> sint w" "sint w < 2 ^ 31"
  using sint_ge [of w] sint_lt [of w] by simp_all

lemma unat_scast_nonneg:
  fixes w :: cint
  assumes "0 \<le> sint w"
  shows "unat (scast w :: size_t) = nat (sint w)"
proof -
  have "sint w < 2 ^ 64"
    using sint_cint_range(2) [of w] by simp
  then have "sint w mod 2 ^ 64 = sint w"
    using assms by simp
  then have "uint (scast w :: size_t) = sint w"
    by (subst scast_eq) (simp add: uint_word_of_int del: of_int_sint)
  then show ?thesis
    by (simp add: unat_eq_nat_uint)
qed


lemma sint_of_nat_small:
  assumes "n < 2 ^ 31"
  shows "sint (word_of_nat n :: cint) = int n"
proof -
  have "int n < 2 ^ 31" using assms by (simp add: nat_less_numeral_power_cancel_iff flip: of_nat_less_iff)
  then show ?thesis
    by (simp add: signed_of_nat signed_take_bit_int_eq_self)
qed


lemma bitLength_bounds:
  "0 < n \<Longrightarrow> 2 ^ (bitLength n - 1) \<le> n \<and> n < 2 ^ bitLength n"
proof (induction n rule: bitLength.induct)
  case (1 n)
  show ?case
  proof (cases "n div 2 = 0")
    case True
    with "1.prems" have "n = 1" by (simp add: div_eq_0_iff) 
    then show ?thesis by (simp add: bitLength.simps)
  next
    case False
    then have pos: "0 < n div 2" by simp
    with "1.prems" "1.IH" have ih: "2 ^ (bitLength (n div 2) - 1) \<le> n div 2 \<and> n div 2 < 2 ^ bitLength (n div 2)"
      by simp
    have bl: "bitLength n = Suc (bitLength (n div 2))"
      using "1.prems" by (subst bitLength.simps) simp
    have blpos: "0 < bitLength (n div 2)"
      using pos by (subst bitLength.simps) simp
    then have eq: "(2::nat) ^ (bitLength n - 1) = 2 * 2 ^ (bitLength (n div 2) - 1)"
      using bl by (cases "bitLength (n div 2)") simp_all
    have "2 * 2 ^ (bitLength (n div 2) - 1) \<le> 2 * (n div 2)"
      using ih by simp
    also have "\<dots> \<le> n"
      by simp
    finally have lower: "2 ^ (bitLength n - 1) \<le> n"
      using eq by simp
    have "n < 2 * 2 ^ bitLength (n div 2)"
      using ih by linarith
    then have "n < 2 ^ bitLength n"
      using bl by simp
    with lower show ?thesis by simp
  qed
qed

lemma bitLength_le:
  assumes "n < 2 ^ k"
  shows "bitLength n \<le> k"
proof (cases "n = 0")
  case True
  then show ?thesis by (simp add: bitLength.simps)
next
  case False
  then have "2 ^ (bitLength n - 1) \<le> n" using bitLength_bounds [of n] by simp
  then have "(2::nat) ^ (bitLength n - 1) < 2 ^ k" using assms by linarith
  then have "bitLength n - 1 < k" by (simp add: power_strict_increasing_iff)
  then show ?thesis by linarith
qed

lemma bitLength_gt:
  assumes "2 ^ k \<le> n"
  shows "k < bitLength n"
proof -
  have "0 < n" using assms by (cases "n = 0") simp_all
  then have "n < 2 ^ bitLength n" using bitLength_bounds [of n] by simp
  then have "(2::nat) ^ k < 2 ^ bitLength n" using assms by linarith
  then show ?thesis by (simp add: power_strict_increasing_iff)
qed

lemma ilog2_less:
  assumes "0 < a" "0 < b" "a < b * 2 ^ j"
  shows "ilog2 a b < int j"
proof -
  define k where "k = int (bitLength a) - int (bitLength b)"
  have a_lo: "2 ^ (bitLength a - 1) \<le> a" and b_hi: "b < 2 ^ bitLength b"
    using bitLength_bounds [OF assms(1)] bitLength_bounds [OF assms(2)] by simp_all
  have "2 ^ (bitLength a - 1) < b * 2 ^ j"
    using a_lo assms(3) by linarith
  also have "b * 2 ^ j < 2 ^ bitLength b * 2 ^ j"
    using b_hi by simp
  finally have "(2::nat) ^ (bitLength a - 1) < 2 ^ (bitLength b + j)"
    by (simp add: power_add)
  then have "bitLength a - 1 < bitLength b + j"
    by (simp add: power_strict_increasing_iff)
  then have k_le: "k \<le> int j"
    unfolding k_def by linarith
  show ?thesis
  proof (cases "k = int j")
    case False
    then have "k < int j" using k_le by simp
    moreover have "ilog2 a b \<le> k"
      by (simp add: ilog2_def Let_def k_def)
    ultimately show ?thesis by simp
  next
    case True
    then have "0 \<le> k" "nat k = j" by simp_all
    then have "\<not> b * 2 ^ nat k \<le> a"
      using assms(3) by simp
    then have "ilog2 a b = k - 1"
      using \<open>0 \<le> k\<close> by (simp add: ilog2_def Let_def k_def)
    then show ?thesis using True by simp
  qed
qed

lemma ilog2_one:
  assumes "0 < n"
  shows "ilog2 n 1 = int (bitLength n) - 1"
proof -
  have one: "bitLength (Suc 0) = Suc 0"
    by (simp add: bitLength.simps)
  have "0 < bitLength n"
    using assms by (subst bitLength.simps) simp
  moreover have "2 ^ (bitLength n - 1) \<le> n"
    using bitLength_bounds [OF assms] by simp
  ultimately show ?thesis
    by (simp add: ilog2_def Let_def one nat_diff_distrib)
qed

lemma ceil_div_unique:
  fixes m S K :: nat
  assumes "0 < S" "(K - 1) * S < m" "m \<le> K * S" "0 < K"
  shows "(m + S - 1) div S = K"
proof -
  obtain j where K: "K = Suc j" using assms(4) by (cases K) simp_all
  have lo: "K * S \<le> m + S - 1"
    using assms(1,2) K by (simp add: algebra_simps)
  have hi: "m + S - 1 < Suc K * S"
    using assms(1,3) by (simp add: algebra_simps)
  have "(m + S - 1) div S = K"
    using lo hi assms(1)
    by (metis div_nat_eqI mult.commute)
  then show ?thesis .
qed

lemma round_then_ceil:
  fixes n D S T :: nat
  assumes n: "0 < n" and D: "0 < D" and T: "T dvd n" "T dvd D" and S: "D < 2 * (T * S)"
  defines "q \<equiv> n * S div D" and "r \<equiv> n * S mod D"
  defines "m \<equiv> (if D < 2 * r \<or> (2 * r = D \<and> odd q) then q + 1 else q)"
  shows "(m + S - 1) div S = (n + D - 1) div D"
proof -
  define K where "K = (n + D - 1) div D"
  have Spos: "0 < S" using S D by (cases "S = 0") simp_all
  have "D \<le> n + D - 1" using n by simp
  then have "D div D \<le> K" unfolding K_def by (rule div_le_mono)
  then have Kpos: "0 < K" using D by simp
  have n_le: "n \<le> K * D"
  proof -
    have "n + D - 1 < K * D + D"
      unfolding K_def using D
      by (metis add.commute div_mult_mod_eq mod_less_divisor mult.commute nat_add_left_cancel_less) 
    then show ?thesis using D by linarith
  qed
  have n_gt: "(K - 1) * D < n"
  proof -
    have "K * D \<le> n + D - 1"
      unfolding K_def by simp
    then have "K * D - D < n" using D n by linarith
    then show ?thesis by (simp add: diff_mult_distrib)
  qed
  have decomp: "q * D + r = n * S"
    unfolding q_def r_def by simp
  have r_lt: "r < D" unfolding r_def using D by simp
  have upper: "m \<le> K * S"
  proof (cases "q = K * S")
    case True
    have "q * D \<le> q * D + r" by simp
    then have "q * D \<le> n * S" using decomp by simp
    then have "K * S * D \<le> n * S" using True by simp
    then have "K * D * S \<le> n * S" by (simp add: mult_ac)
    then have "K * D \<le> n" using Spos by simp
    then have "n = K * D" using n_le by simp
    then have "r = 0" unfolding r_def by simp
    then have "m = q" unfolding m_def using D by simp
    then show ?thesis using True by simp
  next
    case False
    have "n * S \<le> K * D * S" using n_le by simp
    then have "n * S div D \<le> K * S * D div D"
      by (intro div_le_mono) (simp add: mult_ac)
    then have "q \<le> K * S" unfolding q_def using D by simp
    then have "q < K * S" using False by simp
    then show ?thesis unfolding m_def by simp
  qed
  have low_q: "(K - 1) * S \<le> q"
  proof -
    have "(K - 1) * D * S \<le> n * S" using n_gt by simp
    then have "(K - 1) * S * D div D \<le> n * S div D"
      by (intro div_le_mono) (simp add: mult_ac)
    then show ?thesis unfolding q_def using D by simp
  qed
  have lower: "(K - 1) * S < m"
  proof (cases "q = (K - 1) * S")
    case False
    then have "(K - 1) * S < q" using low_q by simp
    then show ?thesis unfolding m_def by simp
  next
    case True
    have "T dvd n - (K - 1) * D"
      using T by (simp add: dvd_diff_nat)
    moreover have "0 < n - (K - 1) * D" using n_gt by simp
    ultimately have "T \<le> n - (K - 1) * D" by (rule dvd_imp_le)
    then have "(K - 1) * D + T \<le> n" using n_gt by linarith
    then have "((K - 1) * D + T) * S \<le> n * S" by (rule mult_le_mono1)
    then have "(K - 1) * S * D + T * S \<le> q * D + r"
      using decomp by (simp add: algebra_simps)
    then have "T * S \<le> r" using True by simp
    then have "D < 2 * r" using S by linarith
    then have "m = q + 1" unfolding m_def by simp
    then show ?thesis using True by simp
  qed
  show ?thesis
    using ceil_div_unique [OF Spos lower upper Kpos] unfolding K_def .
qed

lemma ceil_as_div:
  fixes n D :: nat
  assumes "0 < D"
  shows "\<lceil>real n / real D\<rceil> = int ((n + D - 1) div D)"
proof (rule ceiling_unique)
  define K where "K = (n + D - 1) div D"
  have "n + D - 1 < K * D + D"
    unfolding K_def using assms
    by (metis add.commute div_mult_mod_eq mod_less_divisor mult.commute nat_add_left_cancel_less)
  then have "n \<le> K * D" using assms by linarith
  then have "real n \<le> real (K * D)" by (simp only: of_nat_le_iff)
  then show "real n / real D \<le> of_int (int ((n + D - 1) div D))"
    using assms by (simp add: K_def field_simps)
  show "of_int (int ((n + D - 1) div D)) - 1 < real n / real D"
  proof (cases "n = 0")
    case True
    then show ?thesis using assms by simp
  next
    case False
    have "K * D \<le> n + D - 1" unfolding K_def by simp
    then have "K * D < n + D" using False by linarith
    then have "real (K * D) < real (n + D)" by (simp only: of_nat_less_iff)
    then show ?thesis using assms by (simp add: K_def field_simps)
  qed
qed

lemma f32_of_size_div:
  assumes pos: "0 < unat samples"
    and repr: "2 ^ (bitLength (unat samples) - 24) dvd unat samples"
  shows "f32_div (f32_of_size samples) f32_200000 = f32_round (unat samples) 200000"
proof (cases "unat samples < 2 ^ 24")
  case True
  then show ?thesis
    by (simp add: f32_div_def f32_of_size_def f32_200000_def)
next
  case False
  define n where "n = unat samples"
  define j where "j = bitLength n - 24"
  have big: "2 ^ 24 \<le> n" using False by (simp add: n_def)
  then have "24 < bitLength n" by (rule bitLength_gt)
  then have jpos: "0 < j" and bl: "int (bitLength n) = int j + 24"
    by (simp_all add: j_def)
  have npos: "0 < n" using pos by (simp add: n_def)
  have e: "ilog2 n (Suc 0) - 23 = int j"
    using ilog2_one [OF npos] bl by simp
  have dv: "2 ^ j dvd n" using repr by (simp add: n_def j_def)
  then have r0: "n mod 2 ^ j = 0" by simp
  have "f32_round n 1 = F32 (n div 2 ^ j) (int j)"
    using npos r0 by (simp add: f32_round_def Let_def e)
  then have conv: "f32_of_size samples = F32 (n div 2 ^ j) (int j)"
    using False by (simp add: f32_of_size_def n_def)
  have "n div 2 ^ j * 2 ^ j = n" using dv by simp
  then show ?thesis
    unfolding conv n_def [symmetric]
    by (simp add: f32_div_def f32_200000_def)
qed

lemma f32_ceil_round_exact:
  assumes npos: "0 < n" and small: "n < 2 ^ 30"
    and repr: "2 ^ (bitLength n - 24) dvd n"
  shows "f32_ceil (f32_round n 200000) = (n + 199999) div 200000"
proof -
  define j where "j = bitLength n - 24"
  define e where "e = ilog2 n 200000 - 23"
  define s where "s = nat (- e)"
  have "bitLength n \<le> 30" using small by (rule bitLength_le)
  then have j6: "j \<le> 6" by (simp add: j_def)
  have "bitLength n \<le> 24 + j" by (simp add: j_def)
  then have "(2::nat) ^ bitLength n \<le> 2 ^ (24 + j)"
    by (simp add: power_increasing)
  moreover have "n < 2 ^ bitLength n"
    using bitLength_bounds [OF npos] by simp
  ultimately have "n < 2 ^ 24 * 2 ^ j"
    by (simp add: power_add)
  also have "(2::nat) ^ 24 * 2 ^ j \<le> (200000 * 2 ^ 7) * 2 ^ j"
    by (intro mult_le_mono1) simp
  finally have "n < 200000 * 2 ^ (7 + j)"
    by (simp add: power_add mult_ac)
  then have "ilog2 n 200000 < int (7 + j)"
    using npos by (intro ilog2_less) simp_all
  then have e_le: "e \<le> int j - 17"
    by (simp add: e_def)
  then have eneg: "e < 0" using j6 by simp
  have s_ge: "17 \<le> j + s"
    using e_le by (simp add: s_def)
  have "2 ^ j dvd (2::nat) ^ 6" using j6 by (rule le_imp_power_dvd)
  moreover have "(2::nat) ^ 6 dvd 200000" by simp
  ultimately have Tdvd: "(2::nat) ^ j dvd 200000" by (rule dvd_trans)
  have "(2::nat) ^ 17 \<le> 2 ^ (j + s)"
    using s_ge by (rule power_increasing) simp
  then have gap: "(200000::nat) < 2 * (2 ^ j * 2 ^ s)"
    by (simp add: power_add)
  have nat_e: "nat e = 0" using eneg by simp
  have shape: "f32_round n 200000 =
      F32 (if 200000 < 2 * (n * 2 ^ s mod 200000)
             \<or> (2 * (n * 2 ^ s mod 200000) = 200000 \<and> odd (n * 2 ^ s div 200000))
           then n * 2 ^ s div 200000 + 1 else n * 2 ^ s div 200000) e"
    using npos by (simp add: f32_round_def Let_def e_def [symmetric] s_def [symmetric] nat_e)
  have "((if 200000 < 2 * (n * 2 ^ s mod 200000)
             \<or> (2 * (n * 2 ^ s mod 200000) = 200000 \<and> odd (n * 2 ^ s div 200000))
           then n * 2 ^ s div 200000 + 1 else n * 2 ^ s div 200000) + 2 ^ s - 1) div 2 ^ s
        = (n + 200000 - 1) div 200000"
    using npos _ repr [folded j_def] Tdvd gap
    by (rule round_then_ceil) simp
  then show ?thesis
    unfolding shape using eneg by (simp add: f32_ceil_def s_def [symmetric])
qed

lemma defaultWorkUnits_exact:
  assumes pos: "0 < unat samples" and small: "unat samples < 2 ^ 30"
    and repr: "2 ^ (bitLength (unat samples) - 24) dvd unat samples"
  shows "defaultWorkUnits samples = Inr (word_of_nat ((unat samples + 199999) div 200000))"
proof -
  define K where "K = (unat samples + 199999) div 200000"
  have c: "f32_ceil (f32_div (f32_of_size samples) f32_200000) = K"
    unfolding K_def f32_of_size_div [OF pos repr]
    using pos small repr by (rule f32_ceil_round_exact)
  have "K \<le> unat samples + 199999" unfolding K_def by (rule div_le_dividend)
  then have "K < 2 ^ 30 + 199999" using small by linarith
  then have K64: "K < 2 ^ 64" by simp
  then have "take_bit 64 K = K" by (simp add: take_bit_nat_eq_self)
  then have "(ucast (word_of_nat K :: size_t) :: cint) = word_of_nat K"
    by (simp add: unsigned_of_nat)
  then show ?thesis
    using K64 by (simp add: defaultWorkUnits_def c size_of_f32_def K_def [symmetric])
qed

lemma roundToPowerOfTwo_ge:
  "n \<le> roundToPowerOfTwo n"
proof (cases "n - 1 = 0")
  case True
  then have "n \<le> 1" by simp
  also have "(1::nat) \<le> 2 ^ bitLength (n - 1)" by simp
  finally show ?thesis by (simp add: roundToPowerOfTwo_def)
next
  case False
  then have "n - 1 < 2 ^ bitLength (n - 1)"
    using bitLength_bounds [of "n - 1"] by simp
  then show ?thesis by (simp add: roundToPowerOfTwo_def)
qed

lemma roundToPowerOfTwo_least:
  assumes "0 < n" "n \<le> 2 ^ k"
  shows "roundToPowerOfTwo n \<le> 2 ^ k"
proof -
  have "n - 1 < 2 ^ k" using assms by linarith
  then have "bitLength (n - 1) \<le> k" by (rule bitLength_le)
  then show ?thesis
    by (simp add: roundToPowerOfTwo_def power_increasing)
qed

subsection \<open>The single-precision operations round to nearest, ties to even\<close>

text \<open>
  The operations on \<open>f32\<close> are defined by integer arithmetic. The facts below relate
  them to the real numbers they stand for: the result of \<open>f32_round\<close>, and so of the
  conversion and the division, has a 24-bit mantissa, lies within half a unit in the
  last place of the exact value, and has an even mantissa when it lies exactly half a
  unit away; \<open>f32_ceil\<close> is the ceiling of the value.
\<close>

lemma powi_split: "(2::real) powi (i + j) = 2 powi i * 2 powi j"
  by (rule power_int_add) simp

lemma powi_diff_nat: "(2::real) powi (int m - int n) = 2 ^ m / 2 ^ n"
proof -
  have "(2::real) powi (int m - int n) = 2 powi int m / 2 powi int n"
    by (rule power_int_diff) simp
  then show ?thesis by (simp only: power_int_of_nat)
qed

lemma ilog2_bounds:
  assumes a: "0 < a" and b: "0 < b"
  shows "2 powi ilog2 a b \<le> real a / real b \<and> real a / real b < 2 powi (ilog2 a b + 1)"
proof -
  define k where "k = int (bitLength a) - int (bitLength b)"
  define A :: real where "A = 2 ^ bitLength a"
  define B :: real where "B = 2 ^ bitLength b"
  have Apos: "0 < A" and Bpos: "0 < B" by (simp_all add: A_def B_def)
  have ra: "0 < real a" and rb: "0 < real b" using a b by simp_all
  have "0 < bitLength a" using a by (subst bitLength.simps) simp
  then have bla: "bitLength a = Suc (bitLength a - 1)" by simp
  have "0 < bitLength b" using b by (subst bitLength.simps) simp
  then have blb: "bitLength b = Suc (bitLength b - 1)" by simp
  have a_hi: "real a < A"
  proof -
    have "a < 2 ^ bitLength a" using bitLength_bounds [OF a] by simp
    then have "real a < real (2 ^ bitLength a)" by (simp only: of_nat_less_iff)
    then show ?thesis by (simp add: A_def)
  qed
  have b_hi: "real b < B"
  proof -
    have "b < 2 ^ bitLength b" using bitLength_bounds [OF b] by simp
    then have "real b < real (2 ^ bitLength b)" by (simp only: of_nat_less_iff)
    then show ?thesis by (simp add: B_def)
  qed
  have a_lo: "A \<le> 2 * real a"
  proof -
    have "2 ^ (bitLength a - 1) \<le> a" using bitLength_bounds [OF a] by simp
    then have "2 * 2 ^ (bitLength a - 1) \<le> 2 * a" by simp
    then have "2 ^ Suc (bitLength a - 1) \<le> 2 * a" by simp
    then have "2 ^ bitLength a \<le> 2 * a" using bla by simp
    then have "real (2 ^ bitLength a) \<le> real (2 * a)" by (simp only: of_nat_le_iff)
    then show ?thesis by (simp add: A_def)
  qed
  have b_lo: "B \<le> 2 * real b"
  proof -
    have "2 ^ (bitLength b - 1) \<le> b" using bitLength_bounds [OF b] by simp
    then have "2 * 2 ^ (bitLength b - 1) \<le> 2 * b" by simp
    then have "2 ^ Suc (bitLength b - 1) \<le> 2 * b" by simp
    then have "2 ^ bitLength b \<le> 2 * b" using blb by simp
    then have "real (2 ^ bitLength b) \<le> real (2 * b)" by (simp only: of_nat_le_iff)
    then show ?thesis by (simp add: B_def)
  qed
  have pk: "2 powi k = A / B"
    unfolding k_def A_def B_def by (rule powi_diff_nat)
  have pk1: "2 powi (k + 1) = 2 * A / B"
    by (simp add: powi_split pk)
  have pkm: "2 powi (k - 1) = A / (2 * B)"
  proof -
    have "(2::real) powi (k - 1) = 2 powi k / 2 powi 1"
      by (rule power_int_diff) simp
    then show ?thesis by (simp add: pk)
  qed
  have upper: "real a / real b < 2 powi (k + 1)"
  proof -
    have "real a * B < A * B" using a_hi Bpos by (rule mult_strict_right_mono)
    also have "A * B \<le> A * (2 * real b)" using b_lo Apos by (intro mult_left_mono) simp_all
    finally have "real a * B < 2 * A * real b" by (simp add: mult_ac)
    then have "real a / real b < 2 * A / B"
      using rb Bpos by (simp add: field_simps)
    then show ?thesis by (simp only: pk1)
  qed
  have lower: "2 powi (k - 1) < real a / real b"
  proof -
    have "A * real b \<le> (2 * real a) * real b" using a_lo rb by (intro mult_right_mono) simp_all
    also have "(2 * real a) * real b < (2 * real a) * B"
      using b_hi ra by (intro mult_strict_left_mono) simp_all
    finally have "A * real b < 2 * B * real a" by (simp add: mult_ac)
    then have "A / (2 * B) < real a / real b"
      using rb Bpos by (simp add: field_simps)
    then show ?thesis by (simp only: pkm)
  qed
  have cond: "(if 0 \<le> k then b * 2 ^ nat k \<le> a else b \<le> a * 2 ^ nat (- k))
       \<longleftrightarrow> 2 powi k \<le> real a / real b"
  proof (cases "0 \<le> k")
    case True
    have p: "(2::real) powi k = 2 ^ nat k"
      using True by (simp add: power_int_def)
    have "b * 2 ^ nat k \<le> a \<longleftrightarrow> real (b * 2 ^ nat k) \<le> real a"
      by (simp only: of_nat_le_iff)
    also have "\<dots> \<longleftrightarrow> real b * 2 ^ nat k \<le> real a"
      by simp
    also have "\<dots> \<longleftrightarrow> 2 ^ nat k \<le> real a / real b"
      using rb by (simp add: field_simps)
    finally show ?thesis using True by (simp only: p if_True)
  next
    case False
    have p: "(2::real) powi k = 1 / 2 ^ nat (- k)"
      using False by (simp add: power_int_def field_simps)
    have "b \<le> a * 2 ^ nat (- k) \<longleftrightarrow> real b \<le> real (a * 2 ^ nat (- k))"
      by (simp only: of_nat_le_iff)
    also have "\<dots> \<longleftrightarrow> real b \<le> real a * 2 ^ nat (- k)"
      by simp
    also have "\<dots> \<longleftrightarrow> 1 / 2 ^ nat (- k) \<le> real a / real b"
      using rb by (simp add: field_simps)
    finally show ?thesis using False by (simp only: p if_False)
  qed
  show ?thesis
  proof (cases "2 powi k \<le> real a / real b")
    case True
    then have "ilog2 a b = k"
      using cond unfolding ilog2_def Let_def k_def by simp
    with True upper show ?thesis by simp
  next
    case False
    then have "ilog2 a b = k - 1"
      using cond unfolding ilog2_def Let_def k_def by simp
    with False lower show ?thesis by simp
  qed
qed

lemma f32_round_nearest:
  assumes a: "0 < a" and b: "0 < b"
  shows "2 ^ 23 \<le> mantissa (f32_round a b) \<and> mantissa (f32_round a b) \<le> 2 ^ 24
    \<and> \<bar>f32_value (f32_round a b) - real a / real b\<bar> \<le> 2 powi exponent (f32_round a b) / 2
    \<and> (\<bar>f32_value (f32_round a b) - real a / real b\<bar> = 2 powi exponent (f32_round a b) / 2
         \<longrightarrow> even (mantissa (f32_round a b)))"
proof -
  define e where "e = ilog2 a b - 23"
  define num where "num = a * 2 ^ nat (- e)"
  define den where "den = b * 2 ^ nat e"
  define q where "q = num div den"
  define r where "r = num mod den"
  define m where "m = (if den < 2 * r \<or> (2 * r = den \<and> odd q) then q + 1 else q)"
  define u :: real where "u = 2 powi e"
  define x where "x = real a / real b"
  have shape: "f32_round a b = F32 m e"
    using a by (simp add: f32_round_def Let_def e_def num_def den_def q_def r_def m_def)
  have upos: "0 < u" by (simp add: u_def)
  have denpos: "0 < den" using b by (simp add: den_def)
  have rden: "0 < real den" using denpos by simp
  have frac: "real num / real den = x / u"
  proof (cases "0 \<le> e")
    case True
    then have "u = 2 ^ nat e" by (simp add: u_def power_int_def)
    moreover have "nat (- e) = 0" using True by simp
    ultimately show ?thesis
      using b by (simp add: num_def den_def x_def)
  next
    case False
    then have "u = 1 / 2 ^ nat (- e)" by (simp add: u_def power_int_def field_simps)
    moreover have "nat e = 0" using False by simp
    ultimately show ?thesis
      using b by (simp add: num_def den_def x_def)
  qed
  have bounds: "2 powi (e + 23) \<le> x \<and> x < 2 powi (e + 23 + 1)"
    using ilog2_bounds [OF a b] by (simp add: e_def x_def)
  have "2 powi (e + 23) = u * 2 ^ 23"
    by (simp add: powi_split u_def)
  moreover have "2 powi (e + 23 + 1) = u * 2 ^ 24"
    by (simp add: powi_split u_def)
  ultimately have xu: "u * 2 ^ 23 \<le> x" "x < u * 2 ^ 24"
    using bounds by simp_all
  have "2 ^ 23 \<le> x / u" using xu(1) upos by (simp add: field_simps)
  then have "2 ^ 23 \<le> real num / real den" by (simp only: frac)
  then have "2 ^ 23 * real den \<le> real num" using rden by (simp add: field_simps)
  then have "real (2 ^ 23 * den) \<le> real num" by simp
  then have lo_nat: "2 ^ 23 * den \<le> num" by (simp only: of_nat_le_iff)
  have "x / u < 2 ^ 24" using xu(2) upos by (simp add: field_simps)
  then have "real num / real den < 2 ^ 24" by (simp only: frac)
  then have "real num < 2 ^ 24 * real den" using rden by (simp add: field_simps)
  then have "real num < real (2 ^ 24 * den)" by simp
  then have hi_nat: "num < 2 ^ 24 * den" by (simp only: of_nat_less_iff)
  have "2 ^ 23 * den div den \<le> num div den" using lo_nat by (rule div_le_mono)
  then have q_lo: "2 ^ 23 \<le> q" using denpos by (simp add: q_def)
  have q_hi: "q < 2 ^ 24"
    unfolding q_def using hi_nat denpos by (simp add: less_mult_imp_div_less mult.commute)
  have m_lo: "2 ^ 23 \<le> m" using q_lo by (simp add: m_def)
  have m_hi: "m \<le> 2 ^ 24" using q_hi by (simp add: m_def)
  have decomp: "real num = real q * real den + real r"
  proof -
    have "num = q * den + r" by (simp add: q_def r_def)
    then have "real num = real (q * den + r)" by (simp only:)
    then show ?thesis by simp
  qed
  have r_lt: "r < den" unfolding r_def using denpos by simp
  define t where "t = real r / real den"
  have t_def': "real r = t * real den" using rden by (simp add: t_def)
  have xq: "x = (real q + t) * u"
  proof -
    have "x / u = real q + t"
      using decomp rden by (simp add: frac [symmetric] t_def field_simps)
    then show ?thesis using upos by (simp add: field_simps)
  qed
  have val: "f32_value (F32 m e) = real m * u"
    by (simp add: f32_value_def u_def)
  have half: "den < 2 * r \<longleftrightarrow> 1 / 2 < t" "2 * r = den \<longleftrightarrow> t = 1 / 2"
  proof -
    have "den < 2 * r \<longleftrightarrow> real den < real (2 * r)" by (simp only: of_nat_less_iff)
    also have "\<dots> \<longleftrightarrow> 1 / 2 < t" using rden by (simp add: t_def field_simps)
    finally show "den < 2 * r \<longleftrightarrow> 1 / 2 < t" .
    have "2 * r = den \<longleftrightarrow> real (2 * r) = real den" by (simp only: of_nat_eq_iff)
    also have "\<dots> \<longleftrightarrow> t = 1 / 2" using rden by (auto simp: t_def field_simps)
    finally show "2 * r = den \<longleftrightarrow> t = 1 / 2" .
  qed
  have t_range: "0 \<le> t" "t < 1"
    using r_lt rden by (simp_all add: t_def)
  have err: "\<bar>real m * u - x\<bar> \<le> u / 2
      \<and> (\<bar>real m * u - x\<bar> = u / 2 \<longrightarrow> even m)"
  proof (cases "den < 2 * r \<or> (2 * r = den \<and> odd q)")
    case True
    then have m: "m = q + 1" by (simp add: m_def)
    from True have t_ge: "1 / 2 \<le> t" using half by auto
    have diff: "real m * u - x = (1 - t) * u"
      by (simp add: m xq algebra_simps)
    have abs: "\<bar>real m * u - x\<bar> = (1 - t) * u"
      unfolding diff using t_range upos by simp
    have le: "(1 - t) * u \<le> u / 2"
    proof -
      have "(1 - t) * u \<le> (1 / 2) * u"
        using t_ge upos by (intro mult_right_mono) simp_all
      then show ?thesis by simp
    qed
    have "even m" if "(1 - t) * u = u / 2"
    proof -
      from that upos have "t = 1 / 2" by (simp add: field_simps)
      then have "2 * r = den" using half by simp
      then have "\<not> den < 2 * r" by simp
      with True have "odd q" by simp
      then show ?thesis by (simp add: m)
    qed
    with abs le show ?thesis by simp
  next
    case False
    then have m: "m = q" by (simp add: m_def)
    from False have t_le: "t \<le> 1 / 2" using half by auto
    have diff: "real m * u - x = - (t * u)"
      by (simp add: m xq algebra_simps)
    have abs: "\<bar>real m * u - x\<bar> = t * u"
      unfolding diff using t_range upos by simp
    have le: "t * u \<le> u / 2"
    proof -
      have "t * u \<le> (1 / 2) * u"
        using t_le upos by (intro mult_right_mono) simp_all
      then show ?thesis by simp
    qed
    have "even m" if "t * u = u / 2"
    proof -
      from that upos have "t = 1 / 2" by (simp add: field_simps)
      then have "2 * r = den" using half by simp
      with False have "even q" by simp
      then show ?thesis by (simp add: m)
    qed
    with abs le show ?thesis by simp
  qed
  show ?thesis
    unfolding shape using m_lo m_hi err
    by (simp add: val x_def u_def)
qed



lemma f32_of_size_nearest:
  "mantissa (f32_of_size n) \<le> 2 ^ 24
   \<and> \<bar>f32_value (f32_of_size n) - real (unat n)\<bar> \<le> 2 powi exponent (f32_of_size n) / 2
   \<and> (\<bar>f32_value (f32_of_size n) - real (unat n)\<bar> = 2 powi exponent (f32_of_size n) / 2
         \<longrightarrow> even (mantissa (f32_of_size n)))
   \<and> (unat n < 2 ^ 24 \<longrightarrow> f32_value (f32_of_size n) = real (unat n))"
proof (cases "unat n < 2 ^ 24")
  case True
  then show ?thesis
    by (simp add: f32_of_size_def f32_value_def)
next
  case False
  then have "0 < unat n" by simp
  from f32_round_nearest [OF this, of 1] False show ?thesis
    by (simp add: f32_of_size_def)
qed





subsection \<open>The structure of render\<close>


lemma budgetBlock_frame:
  assumes "budgetBlock w c = Inr c'"
  shows "c' = c\<lparr>workUnits := workUnits c', nMutations := nMutations c'\<rparr>"
  using assms by (auto simp: budgetBlock_def split: sum.splits if_splits)

lemma firstStageBlock_Next:
  assumes "firstStageBlock w this = (ev1, this1, Next)"
  shows "m_config this1 = (m_config this)\<lparr>importanceMap := importanceMap (m_config this1)\<rparr>"
    and "importanceMap (m_config this1) \<noteq> None \<Longrightarrow>
           twoStage (m_config this) \<and> \<not> firstStage (m_config this)
           \<and> importanceMap (m_config this1)
               = fst (mltLuminancePass w (firstStageSizeReduction (m_config this)))"
    and "\<forall>n. RenderDirect n \<notin> set ev1"
    and "\<forall>p c i s. Schedule p c i s \<notin> set ev1"
    and "\<forall>a b f. GenerateSeeds a b f \<notin> set ev1"
  using assms
  by (auto simp: firstStageBlock_def Let_def split: if_splits)

lemma firstStageBlock_Next_sampler:
  assumes "firstStageBlock w this = (ev1, this1, Next)"
  shows "\<forall>d s. NewPathSampler d s \<notin> set ev1"
  using assms
  by (auto simp: firstStageBlock_def Let_def split: if_splits)

lemma firstStageBlock_stop:
  assumes "firstStageBlock w this = (ev1, this1, k)" "k \<noteq> Next"
  shows "\<forall>n. RenderDirect n \<notin> set ev1"
    and "\<forall>p c i s. Schedule p c i s \<notin> set ev1"
    and "\<forall>a b f. GenerateSeeds a b f \<notin> set ev1"
    and "\<forall>d s. NewPathSampler d s \<notin> set ev1"
  using assms
  by (auto simp: firstStageBlock_def Let_def split: if_splits)

lemma render_stops_early:
  assumes "firstStageBlock w this = (ev1, this1, k)" "k \<noteq> Next"
  shows "fst (render w this) = ev1" and "fst (snd (render w this)) = this1"
    and "snd (snd (render w this)) = (case k of Throw f \<Rightarrow> Inl f | Return b \<Rightarrow> Inr b | Next \<Rightarrow> Inr True)"
  using assms by (cases k; simp add: render_def)+

lemma render_budget_fault:
  assumes "firstStageBlock w this = (ev1, this1, Next)"
    and "budgetBlock w (m_config this1) = Inl f"
  shows "render w this =
     (ev1 @ [Log EInfo (if nested (m_config this1) then ''Starting nested render job''
                             else ''Starting render job'')], this1, Inl f)"
  using assms by (simp add: render_def Let_def)

lemma render_reaches_direct:
  assumes "firstStageBlock w this = (ev1, this1, Next)"
    and "budgetBlock w (m_config this1) = Inr c2"
  shows "render w this =
     (case directBlock w c2 of
        (ev3, directImage, Throw f) \<Rightarrow>
          (ev1 @ [Log EInfo (if nested (m_config this1) then ''Starting nested render job''
                             else ''Starting render job'')] @ ev3,
           this1\<lparr>m_config := c2\<rparr>, Inl f)
      | (ev3, directImage, Return b) \<Rightarrow>
          (ev1 @ [Log EInfo (if nested (m_config this1) then ''Starting nested render job''
                             else ''Starting render job'')] @ ev3,
           this1\<lparr>m_config := c2\<rparr>, Inr b)
      | (ev3, directImage, Next) \<Rightarrow>
          (case seedBlock w c2 of
             (ev4, c4, pathSeeds) \<Rightarrow>
               (case processBlock w (this1\<lparr>m_config := c4\<rparr>) directImage pathSeeds of
                  (ev5, this5, b) \<Rightarrow>
                    (ev1 @ [Log EInfo (if nested (m_config this1) then ''Starting nested render job''
                             else ''Starting render job'')] @ ev3 @ ev4 @ ev5, this5, Inr b))))"
  using assms
  by (simp add: render_def Let_def split: prod.splits control.splits)

lemma render_full:
  assumes fs: "firstStageBlock w this = (ev1, this1, Next)"
    and bud: "budgetBlock w (m_config this1) = Inr c2"
    and dir: "snd (snd (directBlock w c2)) = Next"
  shows "fst (render w this) =
           ev1 @ [Log EInfo (if nested (m_config this1) then ''Starting nested render job''
                             else ''Starting render job'')]
           @ fst (directBlock w c2) @ fst (seedBlock w c2)
           @ fst (processBlock w (this1\<lparr>m_config := fst (snd (seedBlock w c2))\<rparr>)
                   (fst (snd (directBlock w c2))) (snd (snd (seedBlock w c2))))"
    and "fst (snd (render w this)) = this1\<lparr>m_process := None, m_config := fst (snd (seedBlock w c2))\<rparr>"
    and "snd (snd (render w this)) = Inr (returnStatus w = ESuccess)"
  using dir unfolding render_reaches_direct [OF fs bud]
  by (cases "directBlock w c2"; cases "seedBlock w c2";
      simp add: processBlock_def Let_def split: prod.splits)+

lemma nested_frame:
  assumes fs: "firstStageBlock w this = (ev1, this1, Next)"
    and bud: "budgetBlock w (m_config this1) = Inr c2"
  shows "separateDirect c2 = separateDirect (m_config this)"
    and "directSamples c2 = directSamples (m_config this)"
    and "nested c2 = nested (m_config this)"
    and "maxDepth c2 = maxDepth (m_config this)"
    and "importanceMap c2 = importanceMap (m_config this1)"
    and "twoStage c2 = twoStage (m_config this)"
    and "firstStage c2 = firstStage (m_config this)"
proof -
  have a: "m_config this1 = (m_config this)\<lparr>importanceMap := importanceMap (m_config this1)\<rparr>"
    using fs by (rule firstStageBlock_Next(1))
  have b: "c2 = (m_config this1)\<lparr>workUnits := workUnits c2, nMutations := nMutations c2\<rparr>"
    using bud by (rule budgetBlock_frame)
  show "separateDirect c2 = separateDirect (m_config this)"
    by (subst b, subst a) simp
  show "directSamples c2 = directSamples (m_config this)"
    by (subst b, subst a) simp
  show "nested c2 = nested (m_config this)"
    unfolding nested_def by (subst b, subst a, subst b, subst a) simp
  show "maxDepth c2 = maxDepth (m_config this)"
    by (subst b, subst a) simp
  show "importanceMap c2 = importanceMap (m_config this1)"
    by (subst b) simp
  show "twoStage c2 = twoStage (m_config this)"
    by (subst b, subst a) simp
  show "firstStage c2 = firstStage (m_config this)"
    by (subst b, subst a) simp
qed

lemma render_Schedule:
  assumes "Schedule p cfg img seeds \<in> set (fst (render w this))"
  obtains ev1 this1 c2 where
    "firstStageBlock w this = (ev1, this1, Next)"
    "budgetBlock w (m_config this1) = Inr c2"
    "snd (snd (directBlock w c2)) = Next"
    "img = fst (snd (directBlock w c2))"
    "cfg = fst (snd (seedBlock w c2))"
    "seeds = snd (snd (seedBlock w c2))"
    "p = newProcess w"
proof -
  obtain ev1 this1 k where fs: "firstStageBlock w this = (ev1, this1, k)"
    by (cases "firstStageBlock w this") auto
  show ?thesis
  proof (cases "k = Next")
    case False
    with fs assms show ?thesis
      using firstStageBlock_stop(2) [OF fs False] render_stops_early(1) [OF fs False] by simp
  next
    case True
    note fs' = fs [unfolded True]
    show ?thesis
    proof (cases "budgetBlock w (m_config this1)")
      case (Inl f)
      with assms firstStageBlock_Next(4) [OF fs'] show ?thesis
        by (simp add: render_budget_fault [OF fs' Inl])
    next
      case (Inr c2)
      from assms firstStageBlock_Next(4) [OF fs'] have
        "snd (snd (directBlock w c2)) = Next \<and> img = fst (snd (directBlock w c2))
          \<and> cfg = fst (snd (seedBlock w c2)) \<and> seeds = snd (snd (seedBlock w c2))
          \<and> p = newProcess w"
        unfolding render_reaches_direct [OF fs' Inr]
        by (auto simp: directBlock_def seedBlock_def processBlock_def Let_def
                 split: if_splits)
      with fs' Inr that show ?thesis by blast
    qed
  qed
qed

lemma render_RenderDirect:
  assumes "RenderDirect n \<in> set (fst (render w this))"
  obtains ev1 this1 c2 where
    "firstStageBlock w this = (ev1, this1, Next)"
    "budgetBlock w (m_config this1) = Inr c2"
    "RenderDirect n \<in> set (fst (directBlock w c2))"
proof -
  obtain ev1 this1 k where fs: "firstStageBlock w this = (ev1, this1, k)"
    by (cases "firstStageBlock w this") auto
  show ?thesis
  proof (cases "k = Next")
    case False
    with fs assms show ?thesis
      using firstStageBlock_stop(1) [OF fs False] render_stops_early(1) [OF fs False] by simp
  next
    case True
    note fs' = fs [unfolded True]
    show ?thesis
    proof (cases "budgetBlock w (m_config this1)")
      case (Inl f)
      with assms firstStageBlock_Next(3) [OF fs'] show ?thesis
        by (simp add: render_budget_fault [OF fs' Inl])
    next
      case (Inr c2)
      from assms firstStageBlock_Next(3) [OF fs'] have
        "RenderDirect n \<in> set (fst (directBlock w c2))"
        unfolding render_reaches_direct [OF fs' Inr]
        by (auto simp: directBlock_def seedBlock_def processBlock_def Let_def
                 split: if_splits)
      with fs' Inr that show ?thesis by blast
    qed
  qed
qed

lemma render_NewPathSampler:
  assumes "NewPathSampler d s \<in> set (fst (render w this))"
  shows "s = separateDirect (m_config this)"
proof -
  obtain ev1 this1 k where fs: "firstStageBlock w this = (ev1, this1, k)"
    by (cases "firstStageBlock w this") auto
  show ?thesis
  proof (cases "k = Next")
    case False
    with fs assms show ?thesis
      using firstStageBlock_stop(4) [OF fs False] render_stops_early(1) [OF fs False] by simp
  next
    case True
    note fs' = fs [unfolded True]
    show ?thesis
    proof (cases "budgetBlock w (m_config this1)")
      case (Inl f)
      with assms firstStageBlock_Next_sampler [OF fs'] show ?thesis
        by (simp add: render_budget_fault [OF fs' Inl])
    next
      case (Inr c2)
      from assms firstStageBlock_Next_sampler [OF fs'] have "s = separateDirect c2"
        unfolding render_reaches_direct [OF fs' Inr]
        by (auto simp: directBlock_def seedBlock_def processBlock_def Let_def
                 split: if_splits)
      then show ?thesis
        by (simp add: nested_frame(1) [OF fs' Inr])
    qed
  qed
qed

lemma direct_only_if:
  assumes "RenderDirect n \<in> set (fst (render w this))"
  shows "separateDirect (m_config this) \<and> 0 <s directSamples (m_config this)
         \<and> \<not> nested (m_config this) \<and> n = directSamples (m_config this)"
proof -
  from assms obtain ev1 this1 c2 where
    fs: "firstStageBlock w this = (ev1, this1, Next)"
    and bud: "budgetBlock w (m_config this1) = Inr c2"
    and ev: "RenderDirect n \<in> set (fst (directBlock w c2))"
    by (rule render_RenderDirect)
  from ev have "separateDirect c2 \<and> 0 <s directSamples c2 \<and> \<not> nested c2 \<and> n = directSamples c2"
    by (auto simp: directBlock_def Let_def split: if_splits)
  then show ?thesis
    by (simp add: nested_frame [OF fs bud])
qed

lemma direct_if:
  assumes fs: "firstStageBlock w this = (ev1, this1, Next)"
    and bud: "budgetBlock w (m_config this1) = Inr c2"
    and guard: "separateDirect (m_config this)" "0 <s directSamples (m_config this)"
      "\<not> nested (m_config this)"
  shows "RenderDirect (directSamples (m_config this)) \<in> set (fst (render w this))"
    and "renderDirectComponent w (directSamples (m_config this)) = None \<Longrightarrow>
           snd (snd (render w this)) = Inr False
           \<and> last (fst (render w this)) = RenderDirect (directSamples (m_config this))"
proof -
  have g2: "separateDirect c2 \<and> 0 <s directSamples c2 \<and> \<not> nested c2"
    using guard by (simp add: nested_frame [OF fs bud])
  have ds: "directSamples c2 = directSamples (m_config this)"
    by (rule nested_frame(2) [OF fs bud])
  show "RenderDirect (directSamples (m_config this)) \<in> set (fst (render w this))"
    unfolding render_reaches_direct [OF fs bud]
    using g2 ds
    by (simp add: directBlock_def seedBlock_def processBlock_def Let_def)
  assume "renderDirectComponent w (directSamples (m_config this)) = None"
  then show "snd (snd (render w this)) = Inr False
           \<and> last (fst (render w this)) = RenderDirect (directSamples (m_config this))"
    unfolding render_reaches_direct [OF fs bud]
    using g2 ds
    by (simp add: directBlock_def Let_def)
qed


lemma no_direct_image:
  assumes off: "\<not> separateDirect (m_config this)"
    and sch: "Schedule p cfg img seeds \<in> set (fst (render w this))"
  shows "img = None"
proof -
  from sch obtain ev1 this1 c2 where
    fs: "firstStageBlock w this = (ev1, this1, Next)"
    and bud: "budgetBlock w (m_config this1) = Inr c2"
    and img: "img = fst (snd (directBlock w c2))"
    by (rule render_Schedule)
  have "\<not> separateDirect c2"
    using off by (simp add: nested_frame(1) [OF fs bud])
  then show ?thesis
    unfolding img by (simp add: directBlock_def)
qed

lemma chain_handles_direct:
  assumes fs: "firstStageBlock w this = (ev1, this1, Next)"
    and bud: "budgetBlock w (m_config this1) = Inr c2"
    and off: "\<not> separateDirect (m_config this)"
  shows "NewPathSampler (maxDepth (m_config this)) False \<in> set (fst (render w this))"
    and "\<exists>p cfg seeds. Schedule p cfg None seeds \<in> set (fst (render w this))"
proof -
  have off2: "\<not> separateDirect c2"
    using off by (simp add: nested_frame(1) [OF fs bud])
  then have dir: "directBlock w c2 = ([], None, Next)"
    by (simp add: directBlock_def)
  then have goes_on: "snd (snd (directBlock w c2)) = Next"
    by simp
  have md: "maxDepth c2 = maxDepth (m_config this)"
    by (rule nested_frame(4) [OF fs bud])
  show "NewPathSampler (maxDepth (m_config this)) False \<in> set (fst (render w this))"
    unfolding render_full(1) [OF fs bud goes_on]
    using off2 md by (simp add: seedBlock_def Let_def)
  have "Schedule (newProcess w) (fst (snd (seedBlock w c2))) None (snd (snd (seedBlock w c2)))
          \<in> set (fst (render w this))"
    unfolding render_full(1) [OF fs bud goes_on]
    by (simp add: dir processBlock_def Let_def)
  then show "\<exists>p cfg seeds. Schedule p cfg None seeds \<in> set (fst (render w this))"
    by blast
qed

lemma MLT_directSamples:
  "directSamples (m_config (MLT props junk)) = getInteger props ''directSamples'' 16"
  by (simp add: MLT_def Let_def)

subsection \<open>The example runs, evaluated\<close>

lemmas f32_eval = defaultWorkUnits_def size_of_f32_def f32_ceil_def f32_div_def f32_of_size_def
  f32_200000_def f32_round_def ilog2_def bitLength.simps Let_def

lemmas example_eval = sampleMLT_def twoStageMLT_def MLT_def noProperties_def sampleWorld_def
  getInteger_def getBoolean_def getFloat_def word_sle_eq word_sless_alt


lemma sample_budget:
  "budgetBlock sampleWorld (m_config sampleMLT)
     = Inr ((m_config sampleMLT)\<lparr>workUnits := 6, nMutations := 174762\<rparr>)"
  by (simp add: budgetBlock_def totalSamples_def example_eval f32_eval)

lemma sample_firstStage:
  "firstStageBlock sampleWorld sampleMLT = ([], sampleMLT, Next)"
  by (simp add: firstStageBlock_def example_eval Let_def)

lemma sample_render:
  "render sampleWorld sampleMLT =
     ([Log EInfo ''Starting render job'',
       RenderDirect 16,
       NewPathSampler (- 1) True,
       GenerateSeeds 100000 6 False,
       GenerateSeeds 100000 6 True,
       ConfigDump, RegisterResource,
       BindResource ''scene'', BindResource ''sensor'',
       BindResource ''sampler'', BindResource ''rplSampler'',
       Schedule (Process 9)
         ((m_config sampleMLT)\<lparr>workUnits := 6, nMutations := 174762, luminance := 2\<rparr>)
         (Some (Bitmap 2)) [PathSeed 5],
       Wait (Process 9), Develop (Process 9), UnregisterResource],
      sampleMLT\<lparr>m_config :=
         (m_config sampleMLT)\<lparr>workUnits := 6, nMutations := 174762, luminance := 2\<rparr>\<rparr>,
      Inr True)"
  unfolding render_reaches_direct [OF sample_firstStage sample_budget]
  by (simp add: directBlock_def seedBlock_def processBlock_def nested_def Let_def example_eval)

lemma twoStage_firstStage:
  "firstStageBlock sampleWorld twoStageMLT =
     ([Log EInfo ''Executing first MLT stage'', LuminancePass 16,
       Log EInfo ''First MLT stage took %i ms''],
      twoStageMLT\<lparr>m_config := (m_config twoStageMLT)\<lparr>importanceMap := Some (Bitmap 1)\<rparr>\<rparr>,
      Next)"
  by (simp add: firstStageBlock_def example_eval Let_def)

lemma twoStage_budget:
  "budgetBlock sampleWorld
      (m_config (twoStageMLT\<lparr>m_config := (m_config twoStageMLT)\<lparr>importanceMap := Some (Bitmap 1)\<rparr>\<rparr>))
     = Inr ((m_config twoStageMLT)
              \<lparr>importanceMap := Some (Bitmap 1), workUnits := 6, nMutations := 174762\<rparr>)"
  by (simp add: budgetBlock_def totalSamples_def example_eval f32_eval)

lemma twoStage_schedule:
  "Schedule (Process 9)
     ((m_config twoStageMLT)
        \<lparr>importanceMap := Some (Bitmap 1), workUnits := 6, nMutations := 174762, luminance := 2\<rparr>)
     (Some (Bitmap 2)) [PathSeed 5]
   \<in> set (fst (render sampleWorld twoStageMLT))"
  unfolding render_reaches_direct [OF twoStage_firstStage twoStage_budget]
  by (simp add: directBlock_def seedBlock_def processBlock_def nested_def Let_def example_eval)

lemma oddTotal_total:
  "totalSamples (cropSizeX oddTotalWorld) (cropSizeY oddTotalWorld) (samplerSampleCount oddTotalWorld)
     = Inr 17600001"
  by (simp add: oddTotalWorld_def sampleWorld_def totalSamples_def)

lemma oddTotal_budget:
  "budgetBlock oddTotalWorld (m_config sampleMLT)
     = Inr ((m_config sampleMLT)\<lparr>workUnits := 88, nMutations := 200000\<rparr>)"
  by (simp add: budgetBlock_def totalSamples_def oddTotalWorld_def example_eval f32_eval)


lemma huge_ceiling:
  "f32_ceil (f32_div (f32_of_size 2251707488665600) f32_200000) = 11258536960"
  by (simp add: f32_eval)



lemma hd_total:
  "totalSamples (cropSizeX hdWorld) (cropSizeY hdWorld) (samplerSampleCount hdWorld)
     = Inr 33177600"
  by (simp add: hdWorld_def sampleWorld_def totalSamples_def)

text \<open>
  With no sample to take and no configured work-unit count, the derived count is zero
  and the division of line 178 has a zero divisor.
\<close>
lemma budgetBlock_zero_total:
  assumes "workUnits c \<le>s 0"
    and "totalSamples (cropSizeX w) (cropSizeY w) (samplerSampleCount w) = Inr 0"
  shows "budgetBlock w c = Inl DivisionByZero"
proof -
  have "defaultWorkUnits 0 = Inr 0"
    by (simp add: f32_eval)
  then show ?thesis
    using assms by (simp add: budgetBlock_def)
qed

section \<open>Preconditions checked by preprocess\<close>

text \<open>
  C7. \<open>preprocess\<close> ends in a fatal error exactly when the scene has at least one
  subsurface integrator or the sampler's class is not \<open>IndependentSampler\<close>; in every
  other case it returns \<open>true\<close>. A fault of \<open>preprocess\<close> is always such a fatal
  error, and \<open>preprocess\<close> never returns \<open>false\<close>. The check of the subsurface
  integrators comes first: its message is the one reported when both checks fail.
\<close>
theorem preprocess_fatal_iff:
  "((\<exists>msg. preprocess sc = Inl (FatalError msg)) \<longleftrightarrow>
      (subsurfaceIntegrators sc \<noteq> [] \<or> samplerClassName sc \<noteq> ''IndependentSampler''))
   \<and> (preprocess sc = Inr True \<longleftrightarrow>
      (subsurfaceIntegrators sc = [] \<and> samplerClassName sc = ''IndependentSampler''))
   \<and> (\<forall>e. preprocess sc = Inl e \<longrightarrow> (\<exists>msg. e = FatalError msg))
   \<and> preprocess sc \<noteq> Inr False
   \<and> (subsurfaceIntegrators sc \<noteq> [] \<longrightarrow>
        preprocess sc = Inl (FatalError ''Subsurface integrators are not supported by MLT!''))"
proof (cases "subsurfaceIntegrators sc = []")
  case False
  then have "preprocess sc = Inl (FatalError ''Subsurface integrators are not supported by MLT!'')"
    by (simp add: preprocess_def)
  with False show ?thesis by simp
next
  case True
  note empty = this
  show ?thesis
  proof (cases "samplerClassName sc = ''IndependentSampler''")
    case True
    with empty have "preprocess sc = Inr True"
      by (simp add: preprocess_def)
    with empty True show ?thesis by simp
  next
    case False
    with empty have "preprocess sc
        = Inl (FatalError ''Metropolis light transport requires the independent sampler'')"
      by (simp add: preprocess_def)
    with empty False show ?thesis by simp
  qed
qed

theorem preprocess_fatal_iff_witness:
  "preprocess \<lparr>subsurfaceIntegrators = [], samplerClassName = ''IndependentSampler''\<rparr> = Inr True
   \<and> (\<exists>msg. preprocess \<lparr>subsurfaceIntegrators = [7], samplerClassName = ''IndependentSampler''\<rparr>
          = Inl (FatalError msg))
   \<and> (\<exists>msg. preprocess \<lparr>subsurfaceIntegrators = [], samplerClassName = ''LowDiscrepancySampler''\<rparr>
          = Inl (FatalError msg))"
  using preprocess_fatal_iff [of "\<lparr>subsurfaceIntegrators = [], samplerClassName = ''IndependentSampler''\<rparr>"]
    preprocess_fatal_iff [of "\<lparr>subsurfaceIntegrators = [7], samplerClassName = ''IndependentSampler''\<rparr>"]
    preprocess_fatal_iff [of "\<lparr>subsurfaceIntegrators = [], samplerClassName = ''LowDiscrepancySampler''\<rparr>"]
  by simp

section \<open>Cancellation order\<close>

text \<open>
  C9. \<open>cancel\<close> cancels the nested job first, when there is one, and the outer process
  on the scheduler after it; with no nested job the scheduler call is the only one. The
  scheduler call is always made, and it is always the last call.
\<close>
theorem cancel_order:
  "(m_nestedJob this = Some j \<longrightarrow> cancel this = [JobCancel j, SchedulerCancel (m_process this)])
   \<and> (m_nestedJob this = None \<longrightarrow> cancel this = [SchedulerCancel (m_process this)])
   \<and> last (cancel this) = SchedulerCancel (m_process this)"
proof (cases "m_nestedJob this")
  case None
  then have "cancel this = [SchedulerCancel (m_process this)]"
    by (simp add: cancel_def)
  with None show ?thesis by simp
next
  case (Some nested)
  then have "cancel this = [JobCancel nested, SchedulerCancel (m_process this)]"
    by (simp add: cancel_def)
  with Some show ?thesis by simp
qed

theorem cancel_order_witness:
  "cancel (sampleMLT\<lparr>m_process := Some (Process 1), m_nestedJob := Some (RenderJob 2)\<rparr>)
     = [JobCancel (RenderJob 2), SchedulerCancel (Some (Process 1))]
   \<and> cancel (sampleMLT\<lparr>m_process := Some (Process 1)\<rparr>)
     = [SchedulerCancel (Some (Process 1))]"
  using cancel_order [of "sampleMLT\<lparr>m_process := Some (Process 1), m_nestedJob := Some (RenderJob 2)\<rparr>"
                         "RenderJob 2"]
    cancel_order [of "sampleMLT\<lparr>m_process := Some (Process 1)\<rparr>" "RenderJob 2"]
  by (simp add: sampleMLT_def MLT_def Let_def)

section \<open>The mutation budget\<close>




text \<open>
  C3. With a non-positive configured \<open>workUnits\<close>, \<open>render\<close> forms the quotient of the
  sample total by 200000 in single precision and stores its ceiling. For a total that is
  positive, below \<open>2^30\<close> and has at most 24 significant binary digits (every total up
  to \<open>2^24\<close> has), the stored count is exactly the ceiling of total / 200000, and
  \<open>nMutations\<close> is the integer quotient of the total by that count.
\<close>
theorem default_budget_exact:
  assumes nonpos: "workUnits c \<le>s 0"
    and tot: "totalSamples (cropSizeX w) (cropSizeY w) (samplerSampleCount w) = Inr samples"
    and pos: "0 < unat samples" and small: "unat samples < 2 ^ 30"
    and repr: "2 ^ (bitLength (unat samples) - 24) dvd unat samples"
  shows "\<exists>c'. budgetBlock w c = Inr c'
     \<and> sint (workUnits c') = \<lceil>real (unat samples) / 200000\<rceil>
     \<and> unat (nMutations c') = unat samples div nat (sint (workUnits c'))
     \<and> c' = c\<lparr>workUnits := workUnits c', nMutations := nMutations c'\<rparr>"
proof -
  define K where "K = (unat samples + 199999) div 200000"
  define wu :: cint where "wu = word_of_nat K"
  have dflt: "defaultWorkUnits samples = Inr wu"
    unfolding wu_def K_def using pos small repr by (rule defaultWorkUnits_exact)
  have "K \<le> unat samples + 199999" unfolding K_def by (rule div_le_dividend)
  then have "K < 2 ^ 30 + 199999" using small by linarith
  then have "K < 2 ^ 31" by simp
  then have sint_wu: "sint wu = int K"
    unfolding wu_def by (rule sint_of_nat_small)
  have "200000 \<le> unat samples + 199999" using pos by simp
  then have "200000 div 200000 \<le> K" unfolding K_def by (rule div_le_mono)
  then have Kpos: "0 < K" by simp
  have conv: "unat (scast wu :: size_t) = K"
    using unat_scast_nonneg [of wu] sint_wu by simp
  then have nz: "(scast wu :: size_t) \<noteq> 0"
    using Kpos by (metis less_numeral_extra(3) unat_0)
  define c' where "c' = c\<lparr>workUnits := wu, nMutations := samples div scast wu\<rparr>"
  have run: "budgetBlock w c = Inr c'"
    using nonpos tot dflt nz by (simp add: budgetBlock_def c'_def)
  have ceil: "sint (workUnits c') = \<lceil>real (unat samples) / 200000\<rceil>"
    using ceil_as_div [of 200000 "unat samples"] sint_wu by (simp add: c'_def K_def)
  have quot: "unat (nMutations c') = unat samples div nat (sint (workUnits c'))"
    using conv sint_wu by (simp add: c'_def unat_div)
  have "c' = c\<lparr>workUnits := workUnits c', nMutations := nMutations c'\<rparr>"
    by (simp add: c'_def)
  with run ceil quot show ?thesis by blast
qed

theorem default_budget_exact_witness:
  "workUnits (m_config sampleMLT) \<le>s 0
   \<and> totalSamples (cropSizeX hdWorld) (cropSizeY hdWorld) (samplerSampleCount hdWorld)
        = Inr 33177600
   \<and> 0 < unat (33177600 :: size_t) \<and> unat (33177600 :: size_t) < 2 ^ 30
   \<and> 2 ^ (bitLength (unat (33177600 :: size_t)) - 24) dvd unat (33177600 :: size_t)
   \<and> (\<exists>c'. budgetBlock hdWorld (m_config sampleMLT) = Inr c'
         \<and> sint (workUnits c') = 166
         \<and> unat (nMutations c') = 33177600 div 166)"
proof -
  have h1: "workUnits (m_config sampleMLT) \<le>s 0"
    by (simp add: example_eval)
  have h3: "0 < unat (33177600 :: size_t)" and h4: "unat (33177600 :: size_t) < 2 ^ 30"
    by simp_all
  have h5: "2 ^ (bitLength (unat (33177600 :: size_t)) - 24) dvd unat (33177600 :: size_t)"
    by (simp add: bitLength.simps)
  have "\<lceil>real (unat (33177600 :: size_t)) / 200000\<rceil> = 166"
    by simp
  with default_budget_exact [OF h1 hd_total h3 h4 h5] have
    "\<exists>c'. budgetBlock hdWorld (m_config sampleMLT) = Inr c'
         \<and> sint (workUnits c') = 166
         \<and> unat (nMutations c') = 33177600 div 166"
    by auto
  with h1 hd_total h3 h4 h5 show ?thesis by blast
qed

text \<open>
  C3 does not hold for every total. For a 3981 x 4421 crop at one sample per pixel the
  total is 17600001. Its nearest single-precision number is 17600000, the quotient is 88
  and so is the stored count, while the ceiling of 17600001 / 200000 is 89.
\<close>
theorem default_workUnits_below_ceiling:
  "workUnits (m_config sampleMLT) \<le>s 0
   \<and> totalSamples (cropSizeX oddTotalWorld) (cropSizeY oddTotalWorld)
        (samplerSampleCount oddTotalWorld) = Inr 17600001
   \<and> budgetBlock oddTotalWorld (m_config sampleMLT)
       = Inr ((m_config sampleMLT)\<lparr>workUnits := 88, nMutations := 200000\<rparr>)
   \<and> \<lceil>real (unat (17600001 :: size_t)) / 200000\<rceil> = (89 :: int)"
  by (simp add: oddTotal_total oddTotal_budget) (simp add: example_eval)

text \<open>
  C4. The work-unit count that replaces a non-positive one is computed from the sample
  total alone: the number of cores does not enter it. With the default \<open>workUnits = -1\<close>,
  8 cores, a 512 x 512 crop and 4 samples per pixel it is 6, not 32.
\<close>
theorem default_workUnits_ignore_cores:
  "budgetBlock (w\<lparr>coreCount := k\<rparr>) c = budgetBlock w c
   \<and> workUnits (m_config sampleMLT) = - 1
   \<and> budgetBlock sampleWorld (m_config sampleMLT)
       = Inr ((m_config sampleMLT)\<lparr>workUnits := 6, nMutations := 174762\<rparr>)
   \<and> 4 * coreCount sampleWorld = 32"
proof (intro conjI)
  show "budgetBlock (w\<lparr>coreCount := k\<rparr>) c = budgetBlock w c"
    by (simp add: budgetBlock_def)
  show "workUnits (m_config sampleMLT) = - 1"
    by (simp add: example_eval)
  show "budgetBlock sampleWorld (m_config sampleMLT)
       = Inr ((m_config sampleMLT)\<lparr>workUnits := 6, nMutations := 174762\<rparr>)"
    by (rule sample_budget)
  show "4 * coreCount sampleWorld = 32"
    by (simp add: sampleWorld_def)
qed

section \<open>The seed passes\<close>

text \<open>
  C2. When the process is scheduled, \<open>m_config.luminance\<close> is the number returned by
  the second call of \<open>generateSeeds\<close>, the one with the flag \<open>true\<close>, which also
  filled the seed vector the process is built over. The number returned by the first
  call, with the flag \<open>false\<close>, has been overwritten. The configuration keeps that
  value until \<open>render\<close> returns.
\<close>
theorem stored_luminance_is_second_pass:
  assumes "Schedule p cfg img seeds \<in> set (fst (render w this))"
  shows "luminance cfg = fst (generateSeeds w (luminanceSamples cfg) (workUnits cfg) True)
       \<and> seeds = snd (generateSeeds w (luminanceSamples cfg) (workUnits cfg) True)
       \<and> m_config (fst (snd (render w this))) = cfg
       \<and> GenerateSeeds (luminanceSamples cfg) (workUnits cfg) False \<in> set (fst (render w this))
       \<and> GenerateSeeds (luminanceSamples cfg) (workUnits cfg) True \<in> set (fst (render w this))"
proof -
  from assms obtain ev1 this1 c2 where
    fs: "firstStageBlock w this = (ev1, this1, Next)"
    and bud: "budgetBlock w (m_config this1) = Inr c2"
    and dir: "snd (snd (directBlock w c2)) = Next"
    and cfg: "cfg = fst (snd (seedBlock w c2))"
    and seeds: "seeds = snd (snd (seedBlock w c2))"
    by (rule render_Schedule)
  have "luminance cfg = fst (generateSeeds w (luminanceSamples cfg) (workUnits cfg) True)"
    and "seeds = snd (generateSeeds w (luminanceSamples cfg) (workUnits cfg) True)"
    and "GenerateSeeds (luminanceSamples cfg) (workUnits cfg) False \<in> set (fst (seedBlock w c2))"
    and "GenerateSeeds (luminanceSamples cfg) (workUnits cfg) True \<in> set (fst (seedBlock w c2))"
    unfolding cfg seeds by (simp_all add: seedBlock_def Let_def)
  moreover have "m_config (fst (snd (render w this))) = cfg"
    unfolding render_full(2) [OF fs bud dir] cfg by simp
  ultimately show ?thesis
    unfolding render_full(1) [OF fs bud dir] by simp
qed

theorem stored_luminance_is_second_pass_witness:
  "Schedule (Process 9)
      ((m_config sampleMLT)\<lparr>workUnits := 6, nMutations := 174762, luminance := 2\<rparr>)
      (Some (Bitmap 2)) [PathSeed 5] \<in> set (fst (render sampleWorld sampleMLT))
   \<and> luminance ((m_config sampleMLT)\<lparr>workUnits := 6, nMutations := 174762, luminance := 2\<rparr>)
       = fst (generateSeeds sampleWorld 100000 6 True)
   \<and> [PathSeed 5] = snd (generateSeeds sampleWorld 100000 6 True)"
proof -
  have h: "Schedule (Process 9)
      ((m_config sampleMLT)\<lparr>workUnits := 6, nMutations := 174762, luminance := 2\<rparr>)
      (Some (Bitmap 2)) [PathSeed 5] \<in> set (fst (render sampleWorld sampleMLT))"
    by (simp add: sample_render)
  show ?thesis
    using stored_luminance_is_second_pass [OF h] h by (simp add: example_eval)
qed

text \<open>
  C2 with the first call in place of the second does not hold. In the example run the
  first call, with the flag \<open>false\<close>, returns 1 and the second returns 2: the
  configuration holds 2 when \<open>render\<close> returns.
\<close>
theorem stored_luminance_not_first_pass:
  "GenerateSeeds 100000 6 False \<in> set (fst (render sampleWorld sampleMLT))
   \<and> fst (generateSeeds sampleWorld 100000 6 False) = 1
   \<and> fst (generateSeeds sampleWorld 100000 6 True) = 2
   \<and> luminance (m_config (fst (snd (render sampleWorld sampleMLT)))) = 2
   \<and> luminance (m_config (fst (snd (render sampleWorld sampleMLT))))
       \<noteq> fst (generateSeeds sampleWorld 100000 6 False)"
  by (simp add: sample_render) (simp add: sampleWorld_def)

section \<open>The first stage\<close>

text \<open>
  C5. With \<open>twoStage\<close> set, \<open>firstStage\<close> not set and a positive size reduction,
  \<open>render\<close> starts by logging and calling the luminance pass with the configured
  \<open>firstStageSizeReduction\<close>; the nested run that pass starts has \<open>firstStage\<close> set and
  is a nested run in the sense of \<open>render\<close>. When the pass returns no image,
  \<open>render\<close> logs a warning and returns \<open>false\<close>: the three calls listed are all it
  makes, so there is no direct pass, no seed generation and no process.
\<close>
theorem first_stage_failure_aborts:
  assumes two: "twoStage (m_config this)" and outer: "\<not> firstStage (m_config this)"
    and red: "0 <s firstStageSizeReduction (m_config this)"
  shows "take 2 (fst (render w this)) =
           [Log EInfo ''Executing first MLT stage'',
            LuminancePass (firstStageSizeReduction (m_config this))]
     \<and> firstStage (nestedIntegrator (m_config this))
     \<and> nested (nestedIntegrator (m_config this))
     \<and> (fst (mltLuminancePass w (firstStageSizeReduction (m_config this))) = None \<longrightarrow>
          render w this =
           ([Log EInfo ''Executing first MLT stage'',
             LuminancePass (firstStageSizeReduction (m_config this)),
             Log EWarn ''First-stage MLT process failed!''],
            this\<lparr>m_nestedJob := snd (mltLuminancePass w (firstStageSizeReduction (m_config this))),
                 m_config := (m_config this)\<lparr>importanceMap := None\<rparr>\<rparr>,
            Inr False))"
proof -
  define n where "n = firstStageSizeReduction (m_config this)"
  have flag: "firstStage (nestedIntegrator (m_config this))
      \<and> nested (nestedIntegrator (m_config this))"
    using two by (simp add: nestedIntegrator_def nested_def)
  show ?thesis
  proof (cases "fst (mltLuminancePass w n) = None")
    case True
    then have "firstStageBlock w this =
       ([Log EInfo ''Executing first MLT stage'', LuminancePass n,
         Log EWarn ''First-stage MLT process failed!''],
        this\<lparr>m_nestedJob := snd (mltLuminancePass w n),
             m_config := (m_config this)\<lparr>importanceMap := None\<rparr>\<rparr>,
        Return False)"
      using two outer red by (simp add: firstStageBlock_def Let_def n_def)
    then show ?thesis
      using flag by (simp add: render_def n_def)
  next
    case False
    then obtain this1 where "firstStageBlock w this =
       ([Log EInfo ''Executing first MLT stage'', LuminancePass n,
         Log EInfo ''First MLT stage took %i ms''], this1, Next)"
      using two outer red by (simp add: firstStageBlock_def Let_def n_def)
    then have "take 2 (fst (render w this)) = [Log EInfo ''Executing first MLT stage'', LuminancePass n]"
      by (simp add: render_def Let_def split: sum.splits prod.splits control.splits)
    with False flag show ?thesis by (auto simp: n_def)
  qed
qed

theorem first_stage_failure_aborts_witness:
  "twoStage (m_config twoStageMLT) \<and> \<not> firstStage (m_config twoStageMLT)
   \<and> 0 <s firstStageSizeReduction (m_config twoStageMLT)
   \<and> fst (mltLuminancePass failedFirstStageWorld (firstStageSizeReduction (m_config twoStageMLT))) = None
   \<and> render failedFirstStageWorld twoStageMLT =
        ([Log EInfo ''Executing first MLT stage'', LuminancePass 16,
          Log EWarn ''First-stage MLT process failed!''],
         twoStageMLT, Inr False)"
proof -
  have h1: "twoStage (m_config twoStageMLT)" and h2: "\<not> firstStage (m_config twoStageMLT)"
    and h3: "0 <s firstStageSizeReduction (m_config twoStageMLT)"
    by (simp_all add: example_eval)
  have h4: "fst (mltLuminancePass failedFirstStageWorld
                  (firstStageSizeReduction (m_config twoStageMLT))) = None"
    by (simp add: failedFirstStageWorld_def)
  show ?thesis
    using first_stage_failure_aborts [OF h1 h2 h3, of failedFirstStageWorld] h1 h2 h3 h4
    by (simp add: failedFirstStageWorld_def) (simp add: example_eval)
qed

text \<open>
  C10. \<open>render\<close> resets the importance map before anything else: a map left in the
  configuration by an earlier call has no influence on the call. When the process is
  scheduled, the configuration holds an importance map only if \<open>twoStage\<close> is set,
  \<open>firstStage\<close> is not, and the map is the one the luminance pass of this call returned.
  A run with \<open>firstStage\<close> set is scheduled without an importance map.
\<close>
theorem importance_map_origin:
  "render w (this\<lparr>m_config := (m_config this)\<lparr>importanceMap := stale\<rparr>\<rparr>) = render w this
   \<and> (Schedule p cfg img seeds \<in> set (fst (render w this)) \<longrightarrow> importanceMap cfg \<noteq> None \<longrightarrow>
        twoStage (m_config this) \<and> \<not> firstStage (m_config this)
        \<and> importanceMap cfg = fst (mltLuminancePass w (firstStageSizeReduction (m_config this))))
   \<and> (Schedule p cfg img seeds \<in> set (fst (render w this)) \<longrightarrow> firstStage (m_config this) \<longrightarrow>
        importanceMap cfg = None)"
proof -
  have reset: "firstStageBlock w (this\<lparr>m_config := (m_config this)\<lparr>importanceMap := stale\<rparr>\<rparr>)
                 = firstStageBlock w this"
    by (simp add: firstStageBlock_def)
  have a: "render w (this\<lparr>m_config := (m_config this)\<lparr>importanceMap := stale\<rparr>\<rparr>) = render w this"
    by (simp only: render_def reset)
  have b: "twoStage (m_config this) \<and> \<not> firstStage (m_config this)
        \<and> importanceMap cfg = fst (mltLuminancePass w (firstStageSizeReduction (m_config this)))"
    if sch: "Schedule p cfg img seeds \<in> set (fst (render w this))" and some: "importanceMap cfg \<noteq> None"
  proof -
    from sch obtain ev1 this1 c2 where
      fs: "firstStageBlock w this = (ev1, this1, Next)"
      and bud: "budgetBlock w (m_config this1) = Inr c2"
      and cfg: "cfg = fst (snd (seedBlock w c2))"
      by (rule render_Schedule)
    have "importanceMap cfg = importanceMap c2"
      unfolding cfg by (simp add: seedBlock_def Let_def)
    then have eq: "importanceMap cfg = importanceMap (m_config this1)"
      by (simp add: nested_frame(5) [OF fs bud])
    with some have "importanceMap (m_config this1) \<noteq> None" by simp
    from firstStageBlock_Next(2) [OF fs this] eq show ?thesis by simp
  qed
  from a b show ?thesis by blast
qed

theorem importance_map_origin_witness:
  "Schedule (Process 9)
     ((m_config twoStageMLT)
        \<lparr>importanceMap := Some (Bitmap 1), workUnits := 6, nMutations := 174762, luminance := 2\<rparr>)
     (Some (Bitmap 2)) [PathSeed 5]
     \<in> set (fst (render sampleWorld twoStageMLT))
   \<and> twoStage (m_config twoStageMLT) \<and> \<not> firstStage (m_config twoStageMLT)
   \<and> fst (mltLuminancePass sampleWorld (firstStageSizeReduction (m_config twoStageMLT)))
       = Some (Bitmap 1)"
  using twoStage_schedule
    importance_map_origin [where w = sampleWorld and this = twoStageMLT and stale = None
      and p = "Process 9" and img = "Some (Bitmap 2)" and seeds = "[PathSeed 5]"
      and cfg = "(m_config twoStageMLT)
        \<lparr>importanceMap := Some (Bitmap 1), workUnits := 6, nMutations := 174762, luminance := 2\<rparr>"]
  by (simp add: example_eval)

section \<open>The direct-illumination pass\<close>

text \<open>
  C6. \<open>render\<close> calls \<open>renderDirectComponent\<close> only if \<open>separateDirect\<close> is set,
  \<open>directSamples\<close> is positive and the run is not nested, and then with the configured
  \<open>directSamples\<close>. In a call that gets as far as the direct step (the first stage did
  not end it and the budget was computed) the converse holds as well: under the three
  conditions the pass is run, and when it returns no image \<open>render\<close> returns \<open>false\<close>
  with the pass as its last call. The constructor sets \<open>separateDirect\<close> exactly when
  \<open>directSamples\<close> is not negative. With a negative \<open>directSamples\<close> no direct pass is
  run and the path sampler is created with direct separation off. The same holds for a
  negative \<open>directSamples\<close> given in the properties: the constructor stores it, direct
  separation is off, no direct pass is run and the process is scheduled without a direct
  image. A call with direct separation off that gets as far as the direct step does create
  the path sampler, with direct separation off, and does schedule the process, without a
  direct image.
\<close>
theorem direct_pass_condition:
  "(RenderDirect n \<in> set (fst (render w this)) \<longrightarrow>
      separateDirect (m_config this) \<and> 0 <s directSamples (m_config this)
      \<and> \<not> nested (m_config this) \<and> n = directSamples (m_config this))
   \<and> (firstStageBlock w this = (ev1, this1, Next) \<and> budgetBlock w (m_config this1) = Inr c2 \<longrightarrow>
        separateDirect (m_config this) \<and> 0 <s directSamples (m_config this)
        \<and> \<not> nested (m_config this) \<longrightarrow>
        RenderDirect (directSamples (m_config this)) \<in> set (fst (render w this))
        \<and> (renderDirectComponent w (directSamples (m_config this)) = None \<longrightarrow>
             snd (snd (render w this)) = Inr False
             \<and> last (fst (render w this)) = RenderDirect (directSamples (m_config this))))
   \<and> (separateDirect (m_config (MLT props junk))
        \<longleftrightarrow> 0 \<le>s directSamples (m_config (MLT props junk)))
   \<and> (directSamples (m_config (MLT props junk)) <s 0 \<longrightarrow>
        (\<forall>k. RenderDirect k \<notin> set (fst (render w (MLT props junk))))
        \<and> (\<forall>d s. NewPathSampler d s \<in> set (fst (render w (MLT props junk))) \<longrightarrow> \<not> s))
   \<and> (integers props ''directSamples'' = Some given \<and> given <s 0 \<longrightarrow>
        directSamples (m_config (MLT props junk)) = given
        \<and> \<not> separateDirect (m_config (MLT props junk))
        \<and> (\<forall>k. RenderDirect k \<notin> set (fst (render w (MLT props junk))))
        \<and> (\<forall>p cfg img seeds.
              Schedule p cfg img seeds \<in> set (fst (render w (MLT props junk))) \<longrightarrow> img = None))
   \<and> (firstStageBlock w this = (ev1, this1, Next) \<and> budgetBlock w (m_config this1) = Inr c2
        \<and> \<not> separateDirect (m_config this) \<longrightarrow>
        NewPathSampler (maxDepth (m_config this)) False \<in> set (fst (render w this))
        \<and> (\<exists>p cfg seeds. Schedule p cfg None seeds \<in> set (fst (render w this))))"
proof (intro conjI impI allI)
  assume "RenderDirect n \<in> set (fst (render w this))"
  then have g: "separateDirect (m_config this) \<and> 0 <s directSamples (m_config this)
         \<and> \<not> nested (m_config this) \<and> n = directSamples (m_config this)"
    by (rule direct_only_if)
  from g show "separateDirect (m_config this)" by simp
  from g show "0 <s directSamples (m_config this)" by simp
  from g show "\<not> nested (m_config this)" by simp
  from g show "n = directSamples (m_config this)" by simp
next
  assume r: "firstStageBlock w this = (ev1, this1, Next) \<and> budgetBlock w (m_config this1) = Inr c2"
    and g: "separateDirect (m_config this) \<and> 0 <s directSamples (m_config this)
        \<and> \<not> nested (m_config this)"
  show "RenderDirect (directSamples (m_config this)) \<in> set (fst (render w this))"
    using r g direct_if(1) by blast
  assume none: "renderDirectComponent w (directSamples (m_config this)) = None"
  have "snd (snd (render w this)) = Inr False
           \<and> last (fst (render w this)) = RenderDirect (directSamples (m_config this))"
    using r g none direct_if(2) by blast
  then show "snd (snd (render w this)) = Inr False"
    and "last (fst (render w this)) = RenderDirect (directSamples (m_config this))"
    by simp_all
next
  show "separateDirect (m_config (MLT props junk))
        \<longleftrightarrow> 0 \<le>s directSamples (m_config (MLT props junk))"
    by (simp add: MLT_def Let_def)
next
  fix k
  assume neg: "directSamples (m_config (MLT props junk)) <s 0"
  show "RenderDirect k \<notin> set (fst (render w (MLT props junk)))"
  proof
    assume "RenderDirect k \<in> set (fst (render w (MLT props junk)))"
    then have "0 <s directSamples (m_config (MLT props junk))"
      using direct_only_if by blast
    with neg show False
      by (simp add: word_sless_alt)
  qed
next
  fix d s
  assume neg: "directSamples (m_config (MLT props junk)) <s 0"
    and "NewPathSampler d s \<in> set (fst (render w (MLT props junk)))"
  then have "s = separateDirect (m_config (MLT props junk))"
    using render_NewPathSampler by blast
  also have "\<dots> = (0 \<le>s directSamples (m_config (MLT props junk)))"
    by (simp add: MLT_def Let_def)
  finally show "\<not> s"
    using neg by (simp add: word_sless_alt word_sle_eq)
next
  assume h: "integers props ''directSamples'' = Some given \<and> given <s 0"
  then show "directSamples (m_config (MLT props junk)) = given"
    by (simp add: MLT_directSamples getInteger_def)
  from h show "\<not> separateDirect (m_config (MLT props junk))"
    by (simp add: MLT_def Let_def getInteger_def word_sle_eq word_sless_alt)
next
  fix k
  assume h: "integers props ''directSamples'' = Some given \<and> given <s 0"
  then have off: "\<not> separateDirect (m_config (MLT props junk))"
    by (simp add: MLT_def Let_def getInteger_def word_sle_eq word_sless_alt)
  show "RenderDirect k \<notin> set (fst (render w (MLT props junk)))"
  proof
    assume "RenderDirect k \<in> set (fst (render w (MLT props junk)))"
    then have "separateDirect (m_config (MLT props junk))"
      using direct_only_if by blast
    with off show False by simp
  qed
next
  fix p cfg img seeds
  assume h: "integers props ''directSamples'' = Some given \<and> given <s 0"
    and sch: "Schedule p cfg img seeds \<in> set (fst (render w (MLT props junk)))"
  from h have off: "\<not> separateDirect (m_config (MLT props junk))"
    by (simp add: MLT_def Let_def getInteger_def word_sle_eq word_sless_alt)
  from off sch show "img = None"
    by (rule no_direct_image)
next
  assume h: "firstStageBlock w this = (ev1, this1, Next) \<and> budgetBlock w (m_config this1) = Inr c2
        \<and> \<not> separateDirect (m_config this)"
  then have fs: "firstStageBlock w this = (ev1, this1, Next)"
    and bud: "budgetBlock w (m_config this1) = Inr c2"
    and off: "\<not> separateDirect (m_config this)"
    by simp_all
  show "NewPathSampler (maxDepth (m_config this)) False \<in> set (fst (render w this))"
    using fs bud off by (rule chain_handles_direct(1))
  show "\<exists>p cfg seeds. Schedule p cfg None seeds \<in> set (fst (render w this))"
    using fs bud off by (rule chain_handles_direct(2))
qed

theorem direct_pass_condition_witness:
  "firstStageBlock sampleWorld sampleMLT = ([], sampleMLT, Next)
   \<and> budgetBlock sampleWorld (m_config sampleMLT)
       = Inr ((m_config sampleMLT)\<lparr>workUnits := 6, nMutations := 174762\<rparr>)
   \<and> separateDirect (m_config sampleMLT) \<and> 0 <s directSamples (m_config sampleMLT)
   \<and> \<not> nested (m_config sampleMLT)
   \<and> directSamples (m_config sampleMLT) = 16
   \<and> RenderDirect 16 \<in> set (fst (render sampleWorld sampleMLT))
   \<and> integers minusOneProperties ''directSamples'' = Some (- 1) \<and> (- 1 :: cint) <s 0
   \<and> directSamples (m_config (MLT minusOneProperties (0, 0))) <s 0
   \<and> \<not> separateDirect (m_config (MLT minusOneProperties (0, 0)))
   \<and> RenderDirect (- 1) \<notin> set (fst (render sampleWorld (MLT minusOneProperties (0, 0))))"
proof -
  have g: "separateDirect (m_config sampleMLT) \<and> 0 <s directSamples (m_config sampleMLT)
      \<and> \<not> nested (m_config sampleMLT)"
    and d: "directSamples (m_config sampleMLT) = 16"
    by (simp_all add: nested_def example_eval)
  have positive: "RenderDirect 16 \<in> set (fst (render sampleWorld sampleMLT))"
    using direct_pass_condition [where n = 16 and w = sampleWorld and this = sampleMLT
        and ?ev1.0 = "[]" and ?this1.0 = sampleMLT
        and ?c2.0 = "(m_config sampleMLT)\<lparr>workUnits := 6, nMutations := 174762\<rparr>"
        and props = noProperties and junk = "(0, 0)" and given = "- 1"]
      sample_firstStage sample_budget g d
    by simp
  have n1: "integers minusOneProperties ''directSamples'' = Some (- 1)"
    by (simp add: minusOneProperties_def noProperties_def)
  have n2: "(- 1 :: cint) <s 0"
    by (simp add: word_sless_alt)
  have n3: "directSamples (m_config (MLT minusOneProperties (0, 0))) <s 0"
    using n1 n2 by (simp add: MLT_directSamples getInteger_def)
  have negative: "\<not> separateDirect (m_config (MLT minusOneProperties (0, 0)))
      \<and> RenderDirect (- 1) \<notin> set (fst (render sampleWorld (MLT minusOneProperties (0, 0))))"
    using direct_pass_condition [where n = 16 and w = sampleWorld and this = sampleMLT
        and ?ev1.0 = "[]" and ?this1.0 = sampleMLT
        and ?c2.0 = "(m_config sampleMLT)\<lparr>workUnits := 6, nMutations := 174762\<rparr>"
        and props = minusOneProperties and junk = "(0, 0)" and given = "- 1"]
      n1 n2
    by blast
  from sample_firstStage sample_budget g d positive n1 n2 n3 negative show ?thesis
    by (intro conjI) simp_all
qed

text \<open>
  C8. A positive \<open>directSamples\<close> given in the properties is kept as it is by the
  constructor and handed as it is to \<open>renderDirectComponent\<close>. The sample count of the
  pass is the next power of two: a power of two, not below the configured value, and
  the least such; a configured power of two is kept.
\<close>
theorem direct_samples_rounded:
  assumes given: "integers props ''directSamples'' = Some d" and pos: "0 <s d"
  shows "directSamples (m_config (MLT props junk)) = d
     \<and> (\<forall>n. RenderDirect n \<in> set (fst (render w (MLT props junk))) \<longrightarrow> n = d)
     \<and> (\<exists>k. directPassSampleCount d = 2 ^ k)
     \<and> nat (sint d) \<le> directPassSampleCount d
     \<and> (\<forall>k. nat (sint d) \<le> 2 ^ k \<longrightarrow> directPassSampleCount d \<le> 2 ^ k)
     \<and> ((\<exists>k. nat (sint d) = 2 ^ k) \<longrightarrow> directPassSampleCount d = nat (sint d))"
proof -
  have kept: "directSamples (m_config (MLT props junk)) = d"
    using given by (simp add: MLT_directSamples getInteger_def)
  have passed: "\<forall>n. RenderDirect n \<in> set (fst (render w (MLT props junk))) \<longrightarrow> n = d"
    using direct_only_if [of _ w "MLT props junk"] kept by auto
  have npos: "0 < nat (sint d)"
    using pos by (simp add: word_sless_alt)
  have pow: "\<exists>k. directPassSampleCount d = 2 ^ k"
    unfolding directPassSampleCount_def roundToPowerOfTwo_def by blast
  have ge: "nat (sint d) \<le> directPassSampleCount d"
    unfolding directPassSampleCount_def by (rule roundToPowerOfTwo_ge)
  have least: "\<forall>k. nat (sint d) \<le> 2 ^ k \<longrightarrow> directPassSampleCount d \<le> 2 ^ k"
    unfolding directPassSampleCount_def using npos roundToPowerOfTwo_least by blast
  have fixed: "(\<exists>k. nat (sint d) = 2 ^ k) \<longrightarrow> directPassSampleCount d = nat (sint d)"
  proof
    assume "\<exists>k. nat (sint d) = 2 ^ k"
    then obtain k where k: "nat (sint d) = 2 ^ k" ..
    then have "directPassSampleCount d \<le> 2 ^ k" using least by simp
    with ge k show "directPassSampleCount d = nat (sint d)" by simp
  qed
  from kept passed pow ge least fixed show ?thesis by blast
qed

theorem direct_samples_rounded_witness:
  "integers seventeenProperties ''directSamples'' = Some 17 \<and> 0 <s (17 :: cint)
   \<and> directSamples (m_config (MLT seventeenProperties (0, 0))) = 17
   \<and> directPassSampleCount 17 = 32"
proof -
  have h1: "integers seventeenProperties ''directSamples'' = Some 17"
    by (simp add: seventeenProperties_def noProperties_def)
  have h2: "0 <s (17 :: cint)"
    by (simp add: word_sless_alt)
  have "directPassSampleCount 17 = 32"
    by (simp add: directPassSampleCount_def roundToPowerOfTwo_def bitLength.simps)
  then show ?thesis
    using direct_samples_rounded [OF h1 h2, of "(0, 0)" sampleWorld] h1 h2 by simp
qed

end
